theory Spec2Isabelle
  imports Complex_Main "HOL-Library.AList"
begin

section \<open>Time, ledger rows and summary rows\<close>

text \<open>
  A \<open>datetime\<close> is an instant in UTC, counted in microseconds since the epoch (the
  resolution of Python's \<open>datetime\<close> and of the \<open>DateTime(timezone=True)\<close> columns).
  A \<open>date\<close> is a calendar day, counted in days since the epoch. Both are unbounded
  integers: the year range of Python's \<open>date\<close> is not modelled.
\<close>

type_synonym datetime = int
type_synonym date = int

definition day_us :: int where
  "day_us = 86400000000"

text \<open>\<open>datetime.date()\<close> on a UTC value, and \<open>func.date\<close> on the column (UTC session).\<close>

definition date_of :: "datetime \<Rightarrow> date" where
  "date_of ts = ts div day_us"

text \<open>\<open>datetime.combine(d, datetime.min.time())\<close>: 00:00:00.000000 of day \<open>d\<close>.\<close>

definition combine_min :: "date \<Rightarrow> datetime" where
  "combine_min d = d * day_us"

text \<open>\<open>datetime.combine(d, datetime.max.time())\<close>: 23:59:59.999999 of day \<open>d\<close>.\<close>

definition combine_max :: "date \<Rightarrow> datetime" where
  "combine_max d = d * day_us + 86399999999"

text \<open>A JSON object of the \<open>notion_metadata\<close> columns, as key/value pairs.\<close>

type_synonym json = "(string \<times> string) list"

record conversation_activity =
  conv_person_id :: int
  notion_conversation_id :: string
  conversation_title :: "string option"
  created_at :: datetime
  conv_last_synced_at :: datetime
  conv_notion_metadata :: "json option"

record task_activity =
  task_person_id :: int
  notion_task_id :: string
  task_title :: "string option"
  project_name :: "string option"
  completed_at :: datetime
  last_status_change :: "datetime option"
  task_last_synced_at :: datetime
  task_notion_metadata :: "json option"

record activity_summary =
  sum_person_id :: int
  sum_date :: datetime
  conversations_created :: int
  tasks_completed :: int
  total_activity_score :: int

text \<open>The three tables of the activity subsystem, each a list of rows.\<close>

record database =
  conversation_activities :: "conversation_activity list"
  task_activities :: "task_activity list"
  activity_summaries :: "activity_summary list"

datatype error = MultipleResultsFound

text \<open>\<open>Result.scalar_one_or_none()\<close>: no row, the one row, or an exception.\<close>

fun scalar_one_or_none :: "'a list \<Rightarrow> error + 'a option" where
  "scalar_one_or_none [] = Inr None"
| "scalar_one_or_none [x] = Inr (Some x)"
| "scalar_one_or_none (x # y # zs) = Inl MultipleResultsFound"

section \<open>Daily summary aggregation\<close>

text \<open>
  \<open>ActivityRepository.create_or_update_summary\<close>: the row of the person whose date
  falls on the same day is overwritten in place, otherwise a new row is added.
\<close>

definition same_person_day :: "int \<Rightarrow> datetime \<Rightarrow> activity_summary \<Rightarrow> bool" where
  "same_person_day pid dt r \<longleftrightarrow> sum_person_id r = pid \<and> date_of (sum_date r) = date_of dt"

definition create_or_update_summary ::
  "activity_summary list \<Rightarrow> int \<Rightarrow> datetime \<Rightarrow> int \<Rightarrow> int \<Rightarrow> int
    \<Rightarrow> error + (activity_summary list \<times> activity_summary)" where
  "create_or_update_summary tbl pid dt cc tc score =
     (case scalar_one_or_none (filter (same_person_day pid dt) tbl) of
        Inl e \<Rightarrow> Inl e
      | Inr (Some summary) \<Rightarrow>
          (let summary' = summary\<lparr>sum_date := dt, conversations_created := cc,
                                   tasks_completed := tc, total_activity_score := score\<rparr>
           in Inr (map (\<lambda>r. if same_person_day pid dt r then summary' else r) tbl, summary'))
      | Inr None \<Rightarrow>
          (let summary = \<lparr>sum_person_id = pid, sum_date = dt, conversations_created = cc,
                          tasks_completed = tc, total_activity_score = score\<rparr>
           in Inr (tbl @ [summary], summary)))"

text \<open>\<open>ActivityRepository.aggregate_daily_activities\<close>.\<close>

definition aggregate_daily_activities ::
  "database \<Rightarrow> int \<Rightarrow> date \<Rightarrow> error + (database \<times> activity_summary)" where
  "aggregate_daily_activities db person_id target_date =
     (let start_datetime = combine_min target_date;
          end_datetime = combine_max target_date;
          conversations_count = int (length (filter
             (\<lambda>c. conv_person_id c = person_id \<and> created_at c \<ge> start_datetime
                    \<and> created_at c \<le> end_datetime) (conversation_activities db)));
          tasks_count = int (length (filter
             (\<lambda>t. task_person_id t = person_id \<and> completed_at t \<ge> start_datetime
                    \<and> completed_at t \<le> end_datetime) (task_activities db)));
          total_score = conversations_count + (tasks_count * 2)
      in case create_or_update_summary (activity_summaries db) person_id start_datetime
                conversations_count tasks_count total_score of
           Inl e \<Rightarrow> Inl e
         | Inr (tbl, summary) \<Rightarrow> Inr (db\<lparr>activity_summaries := tbl\<rparr>, summary))"

text \<open>
  The key of a summary row as the upsert sees it: the person and the day of the date
  column. The table is well formed when no two rows share it.
\<close>

definition summary_keys :: "activity_summary list \<Rightarrow> (int \<times> date) list" where
  "summary_keys tbl = map (\<lambda>r. (sum_person_id r, date_of (sum_date r))) tbl"

text \<open>
  Repeated aggregation of one (person, day); the ledger may differ from run to run.
  Each element of the list is the ledger (conversations, tasks) at the time of a run.
\<close>

fun aggregate_runs ::
  "(conversation_activity list \<times> task_activity list) list \<Rightarrow> activity_summary list
    \<Rightarrow> int \<Rightarrow> date \<Rightarrow> error + activity_summary list" where
  "aggregate_runs [] tbl p d = Inr tbl"
| "aggregate_runs ((cs, ts) # ledgers) tbl p d =
     (case aggregate_daily_activities
             \<lparr>conversation_activities = cs, task_activities = ts, activity_summaries = tbl\<rparr> p d of
        Inl e \<Rightarrow> Inl e
      | Inr (db', s) \<Rightarrow> aggregate_runs ledgers (activity_summaries db') p d)"

text \<open>
  The counts as the specification words them: the events of person \<open>p\<close> whose timestamp
  lies in the half-open interval from 00:00 of day \<open>d\<close> to 00:00 of the next day.
\<close>

definition spec_conversation_count :: "conversation_activity list \<Rightarrow> int \<Rightarrow> date \<Rightarrow> int" where
  "spec_conversation_count cs p d = int (length (filter
      (\<lambda>c. conv_person_id c = p \<and> d * day_us \<le> created_at c \<and> created_at c < (d + 1) * day_us) cs))"

definition spec_task_count :: "task_activity list \<Rightarrow> int \<Rightarrow> date \<Rightarrow> int" where
  "spec_task_count ts p d = int (length (filter
      (\<lambda>t. task_person_id t = p \<and> d * day_us \<le> completed_at t \<and> completed_at t < (d + 1) * day_us) ts))"

text \<open>
  A sample database: person 7 has conversations at 00:00:00.000000, at 00:00:00.000005 and
  at 23:59:59.999999 of day 19000 and one at 00:00 of day 19001; two tasks completed on day
  19000 and one a microsecond before it; the summary row of (7, 19000) holds stale values.
\<close>

definition example_db :: database where
  "example_db =
     \<lparr>conversation_activities =
        [\<lparr>conv_person_id = 7, notion_conversation_id = ''c1'', conversation_title = Some ''standup'',
          created_at = 19000 * day_us, conv_last_synced_at = 0, conv_notion_metadata = None\<rparr>,
         \<lparr>conv_person_id = 7, notion_conversation_id = ''c2'', conversation_title = None,
          created_at = 19000 * day_us + 5, conv_last_synced_at = 0, conv_notion_metadata = None\<rparr>,
         \<lparr>conv_person_id = 7, notion_conversation_id = ''c3'', conversation_title = None,
          created_at = 19001 * day_us - 1, conv_last_synced_at = 0, conv_notion_metadata = None\<rparr>,
         \<lparr>conv_person_id = 7, notion_conversation_id = ''c4'', conversation_title = None,
          created_at = 19001 * day_us, conv_last_synced_at = 0, conv_notion_metadata = None\<rparr>,
         \<lparr>conv_person_id = 8, notion_conversation_id = ''c1'', conversation_title = None,
          created_at = 19000 * day_us + 9, conv_last_synced_at = 0, conv_notion_metadata = None\<rparr>],
      task_activities =
        [\<lparr>task_person_id = 7, notion_task_id = ''t1'', task_title = Some ''fix'', project_name = None,
          completed_at = 19000 * day_us + 100, last_status_change = None,
          task_last_synced_at = 0, task_notion_metadata = None\<rparr>,
         \<lparr>task_person_id = 7, notion_task_id = ''t2'', task_title = None, project_name = None,
          completed_at = 19000 * day_us + 200, last_status_change = None,
          task_last_synced_at = 0, task_notion_metadata = None\<rparr>,
         \<lparr>task_person_id = 7, notion_task_id = ''t3'', task_title = None, project_name = None,
          completed_at = 19000 * day_us - 1, last_status_change = None,
          task_last_synced_at = 0, task_notion_metadata = None\<rparr>],
      activity_summaries =
        [\<lparr>sum_person_id = 7, sum_date = 19000 * day_us, conversations_created = 9,
          tasks_completed = 9, total_activity_score = 27\<rparr>,
         \<lparr>sum_person_id = 8, sum_date = 19000 * day_us, conversations_created = 1,
          tasks_completed = 0, total_activity_score = 1\<rparr>]\<rparr>"

section \<open>Streaks\<close>

text \<open>The dictionary returned by \<open>ActivityRepository.calculate_streak\<close>.\<close>

record streak_info =
  current_streak :: int
  longest_streak :: int
  current_streak_start :: "date option"
  longest_streak_start :: "date option"
  longest_streak_end :: "date option"

text \<open>
  The query of \<open>calculate_streak\<close>: the dates of the person's rows with a positive score,
  ordered by the date column, each reduced to its calendar day.
\<close>

definition activity_dates_of :: "activity_summary list \<Rightarrow> int \<Rightarrow> date list" where
  "activity_dates_of tbl person_id =
     map (\<lambda>r. date_of (sum_date r))
       (sort_key sum_date
          (filter (\<lambda>r. sum_person_id r = person_id \<and> total_activity_score r > 0) tbl))"

text \<open>
  The forward loop \<open>for i in range(1, len(activity_dates))\<close>. The first argument is
  \<open>activity_dates[i - 1]\<close>, the list holds \<open>activity_dates[i:]\<close>; the state is
  (\<open>temp_streak\<close>, \<open>temp_streak_start\<close>) and
  (\<open>longest_streak\<close>, \<open>longest_streak_start\<close>, \<open>longest_streak_end\<close>), written
  \<open>temp\<close>, \<open>temp_start\<close>, \<open>longest\<close>, \<open>longest_start\<close>, \<open>longest_end\<close>.
\<close>

fun streak_loop ::
  "date \<Rightarrow> date list \<Rightarrow> int \<times> date \<Rightarrow> int \<times> date option \<times> date option
    \<Rightarrow> (int \<times> date) \<times> (int \<times> date option \<times> date option)" where
  "streak_loop prev_date [] temp_state longest_state = (temp_state, longest_state)"
| "streak_loop prev_date (curr_date # rest) (temp, temp_start) (longest, longest_start, longest_end) =
     (if curr_date - prev_date = 1
      then streak_loop curr_date rest (temp + 1, temp_start) (longest, longest_start, longest_end)
      else streak_loop curr_date rest (1, curr_date)
             (if temp > longest
              then (temp, Some temp_start, Some prev_date)
              else (longest, longest_start, longest_end)))"

text \<open>
  The backward loop \<open>for i in range(len(activity_dates) - 2, -1, -1)\<close> with its
  \<open>break\<close>. The first argument is \<open>activity_dates[i + 1]\<close>, the list holds
  \<open>activity_dates[i], activity_dates[i - 1], ...\<close>, the state is
  (\<open>current_streak\<close>, \<open>current_streak_start\<close>), written \<open>cur\<close>, \<open>cur_start\<close>.
\<close>

fun count_backwards :: "date \<Rightarrow> date list \<Rightarrow> int \<times> date \<Rightarrow> int \<times> date" where
  "count_backwards later [] cur_state = cur_state"
| "count_backwards later (d # earlier) (cur, cur_start) =
     (if later - d = 1 then count_backwards d earlier (cur + 1, d)
      else (cur, cur_start))"

text \<open>The body of \<open>calculate_streak\<close> after the query; \<open>today\<close> is \<open>date.today()\<close>.\<close>

definition streaks_of_dates :: "date list \<Rightarrow> date \<Rightarrow> streak_info" where
  "streaks_of_dates activity_dates today =
     (case activity_dates of
        [] \<Rightarrow> \<lparr>current_streak = 0, longest_streak = 0, current_streak_start = None,
               longest_streak_start = None, longest_streak_end = None\<rparr>
      | first # rest \<Rightarrow>
          (case streak_loop first rest (1, first) (0, None, None) of
             ((temp, temp_start), (longest, longest_start, longest_end)) \<Rightarrow>
            (let (longest', longest_start', longest_end') =
                   (if temp > longest
                    then (temp, Some temp_start, Some (last activity_dates))
                    else (longest, longest_start, longest_end));
                 last_activity = last activity_dates;
                 days_since_last = today - last_activity;
                 (cur, cur_start) =
                   (if days_since_last \<le> 1
                    then (case count_backwards last_activity (rev (butlast activity_dates))
                                 (1, last_activity) of
                            (n, s) \<Rightarrow> (n, Some s))
                    else (0, None))
             in \<lparr>current_streak = cur, longest_streak = longest',
                  current_streak_start = cur_start,
                  longest_streak_start = longest_start',
                  longest_streak_end = longest_end'\<rparr>)))"

definition calculate_streak :: "activity_summary list \<Rightarrow> int \<Rightarrow> date \<Rightarrow> streak_info" where
  "calculate_streak tbl person_id today = streaks_of_dates (activity_dates_of tbl person_id) today"

text \<open>
  The runs of a list of days as the specification words them: a gap of exactly one day
  extends the run, any other gap starts a new one.
\<close>

fun spec_runs :: "date list \<Rightarrow> date list list" where
  "spec_runs [] = []"
| "spec_runs [d] = [d] # []"
| "spec_runs (d # e # ds) =
     (if e - d = 1
      then (case spec_runs (e # ds) of r # rs \<Rightarrow> (d # r) # rs | [] \<Rightarrow> [d] # [])
      else [d] # spec_runs (e # ds))"

text \<open>A summary table with one active day of person 7, three days after day 19000.\<close>

definition future_day_table :: "activity_summary list" where
  "future_day_table =
     [\<lparr>sum_person_id = 7, sum_date = combine_min 19003, conversations_created = 1,
       tasks_completed = 0, total_activity_score = 1\<rparr>]"

text \<open>
  The test-and-replace that the source applies when a run ends: a run of \<open>n\<close> days from
  \<open>s\<close> to \<open>e\<close> replaces the best run so far only if it is strictly longer.
\<close>

definition take_longer ::
  "int \<times> date option \<times> date option \<Rightarrow> int \<Rightarrow> date \<Rightarrow> date \<Rightarrow> int \<times> date option \<times> date option" where
  "take_longer best n s e = (if n > fst best then (n, Some s, Some e) else best)"

text \<open>The best run of a list of runs: the first one of the greatest length.\<close>

definition best_of_runs :: "date list list \<Rightarrow> int \<times> date option \<times> date option" where
  "best_of_runs runs =
     fold (\<lambda>r best. take_longer best (int (length r)) (hd r) (last r)) runs (0, None, None)"

text \<open>The days that continue a run backwards from a later day, nearest first.\<close>

fun chain_back :: "date \<Rightarrow> date list \<Rightarrow> date list" where
  "chain_back later [] = []"
| "chain_back later (d # earlier) = (if later - d = 1 then d # chain_back d earlier else [])"

text \<open>A list of days in which every day is the day after its predecessor.\<close>

fun consecutive :: "date list \<Rightarrow> bool" where
  "consecutive [] = True"
| "consecutive [d] = True"
| "consecutive (d # e # ds) = (e - d = 1 \<and> consecutive (e # ds))"

text \<open>Seven active days of person 7: days 18993 to 18995 and 18997 to 19000.\<close>

definition week_table :: "activity_summary list" where
  "week_table =
     map (\<lambda>d. \<lparr>sum_person_id = 7, sum_date = combine_min d, conversations_created = 1,
                tasks_completed = 0, total_activity_score = 1\<rparr>)
       [18993, 18994, 18995, 18997, 18998, 18999, 19000]"

section \<open>Heatmap\<close>

record heatmap_data =
  hm_date :: date
  hm_count :: int
  hm_level :: int

record heatmap_response =
  hm_person_id :: int
  hm_start_date :: date
  hm_end_date :: date
  total_days :: int
  active_days :: int
  max_activity :: int
  hm_data :: "heatmap_data list"

text \<open>
  \<open>ActivityRepository.get_summaries_for_person\<close>. The date column is compared with the
  two calendar days, which the database reads as 00:00 of those days.
\<close>

definition get_summaries_for_person ::
  "activity_summary list \<Rightarrow> int \<Rightarrow> date \<Rightarrow> date \<Rightarrow> activity_summary list" where
  "get_summaries_for_person tbl person_id start_date end_date =
     sort_key sum_date
       (filter (\<lambda>r. sum_person_id r = person_id \<and> sum_date r \<ge> combine_min start_date
                     \<and> sum_date r \<le> combine_min end_date) tbl)"

text \<open>
  The dictionary comprehension \<open>activity_map\<close>: a later row of the same day replaces the
  value of an earlier one.
\<close>

definition build_activity_map :: "activity_summary list \<Rightarrow> (date \<times> int) list" where
  "build_activity_map summaries =
     fold (\<lambda>s m. AList.update (date_of (sum_date s)) (total_activity_score s) m) summaries []"

text \<open>\<open>max(activity_map.values()) if activity_map else 1\<close>.\<close>

definition max_activity_of :: "(date \<times> int) list \<Rightarrow> int" where
  "max_activity_of activity_map =
     (case map snd activity_map of [] \<Rightarrow> 1 | v # vs \<Rightarrow> fold max vs v)"

text \<open>\<open>activity_map.get(current_date, 0)\<close>.\<close>

definition day_count :: "(date \<times> int) list \<Rightarrow> date \<Rightarrow> int" where
  "day_count activity_map d = (case map_of activity_map d of Some c \<Rightarrow> c | None \<Rightarrow> 0)"

text \<open>
  The level of one day. The products with 0.75, 0.5 and 0.25 are taken in the reals: the
  floating-point products of the source are exact for the 32-bit scores of the table.
\<close>

definition heat_level :: "int \<Rightarrow> int \<Rightarrow> int" where
  "heat_level activity_count max_act =
     (if activity_count = 0 then 0
      else if real_of_int activity_count \<ge> real_of_int max_act * 0.75 then 4
      else if real_of_int activity_count \<ge> real_of_int max_act * 0.5 then 3
      else if real_of_int activity_count \<ge> real_of_int max_act * 0.25 then 2
      else 1)"

text \<open>
  The loop \<open>while current_date <= end_date\<close>; the state is the list of points built so
  far and the counter of active days.
\<close>

function heatmap_loop ::
  "(date \<times> int) list \<Rightarrow> int \<Rightarrow> date \<Rightarrow> date \<Rightarrow> heatmap_data list \<times> int
    \<Rightarrow> heatmap_data list \<times> int" where
  "heatmap_loop activity_map max_act current_date end_date (points, n_active) =
     (if current_date \<le> end_date
      then (let activity_count = day_count activity_map current_date;
                n_active' = (if activity_count > 0 then n_active + 1 else n_active);
                level = heat_level activity_count max_act
            in heatmap_loop activity_map max_act (current_date + 1) end_date
                 (points @ [\<lparr>hm_date = current_date, hm_count = activity_count,
                              hm_level = level\<rparr>], n_active'))
      else (points, n_active))"
  by pat_completeness auto
termination
  by (relation "measure (\<lambda>(m, mx, cur, e, st). nat (e - cur + 1))") auto

declare heatmap_loop.simps [simp del]

text \<open>\<open>ActivityStatsService.get_heatmap\<close>; \<open>today\<close> is \<open>date.today()\<close>.\<close>

definition get_heatmap :: "activity_summary list \<Rightarrow> int \<Rightarrow> int \<Rightarrow> date \<Rightarrow> heatmap_response" where
  "get_heatmap tbl person_id days today =
     (let end_date = today;
          start_date = end_date - (days - 1);
          summaries = get_summaries_for_person tbl person_id start_date end_date;
          activity_map = build_activity_map summaries;
          max_act = max_activity_of activity_map;
          (points, n_active) = heatmap_loop activity_map max_act start_date end_date ([], 0)
      in \<lparr>hm_person_id = person_id, hm_start_date = start_date, hm_end_date = end_date,
           total_days = days, active_days = n_active, max_activity = max_act,
           hm_data = points\<rparr>)"

text \<open>A summary table whose only row is a day of person 7 without any activity.\<close>

definition zero_score_table :: "activity_summary list" where
  "zero_score_table =
     [\<lparr>sum_person_id = 7, sum_date = combine_min 19000, conversations_created = 0,
       tasks_completed = 0, total_activity_score = 0\<rparr>]"

text \<open>
  A summary table with the scores 1, 5 and 10 of person 7 on the days 18997, 18998 and
  19000; day 18999 has no row.
\<close>

definition scores_table :: "activity_summary list" where
  "scores_table =
     [\<lparr>sum_person_id = 7, sum_date = combine_min 18997, conversations_created = 1,
       tasks_completed = 0, total_activity_score = 1\<rparr>,
      \<lparr>sum_person_id = 7, sum_date = combine_min 18998, conversations_created = 1,
       tasks_completed = 2, total_activity_score = 5\<rparr>,
      \<lparr>sum_person_id = 7, sum_date = combine_min 19000, conversations_created = 4,
       tasks_completed = 3, total_activity_score = 10\<rparr>]"

section \<open>Bulk aggregation\<close>

text \<open>A row of the person table (the columns the aggregation reads).\<close>

record person =
  p_id :: int
  p_username :: string

text \<open>
  \<open>PersonRepository.get_all\<close> without a search term: the page of \<open>limit\<close> rows after
  \<open>skip\<close> rows in username order, and the total count. The person table is kept as the
  list of its rows in username order.
\<close>

definition get_all :: "person list \<Rightarrow> nat \<Rightarrow> nat \<Rightarrow> person list \<times> nat" where
  "get_all persons_table skip limit = (take limit (drop skip persons_table), length persons_table)"

text \<open>
  What the database answers to the flush at the end of \<open>create_or_update_summary\<close>: the
  list \<open>rejected\<close> names the (person, day) keys whose flush it refuses, for instance
  because another session has committed a row with the same primary key since this session
  looked for one. Which flushes are refused is decided by the database and the other
  sessions, not by this repository; \<open>aggregate_daily_activities\<close> above is the call whose
  flush is accepted.
\<close>

type_synonym flush_verdicts = "(int \<times> date) list"

text \<open>
  How a batch ends when it does not return: a refused flush rolls the session back, which
  discards every summary the batch has written and not committed and expires the loaded
  persons; \<open>person.id\<close> in the \<open>except\<close> branch then raises, and that exception leaves
  \<open>bulk_aggregate_daily_activities\<close>.
\<close>

datatype batch_failure = SessionRolledBack

text \<open>
  The inner loop \<open>for person in persons\<close> with its \<open>try\<close>/\<open>except\<close>. Besides the
  database and \<open>count\<close> the state carries the trace of the calls made: person, day, and
  whether the call returned (\<open>True\<close>) or raised and was logged (\<open>False\<close>). An exception
  raised before anything is flushed (\<open>MultipleResultsFound\<close>) leaves the session as it was:
  it is logged and the loop goes on. A refused flush ends the batch.
\<close>

type_synonym call_trace = "(int \<times> date \<times> bool) list"

fun persons_loop ::
  "flush_verdicts \<Rightarrow> database \<Rightarrow> person list \<Rightarrow> date \<Rightarrow> int \<times> call_trace
    \<Rightarrow> batch_failure + (database \<times> int \<times> call_trace)" where
  "persons_loop rejected db [] current_date st = Inr (db, st)"
| "persons_loop rejected db (person # rest) current_date (count, calls) =
     (case aggregate_daily_activities db (p_id person) current_date of
        Inr (db', summary) \<Rightarrow>
          (if (p_id person, current_date) \<in> set rejected then Inl SessionRolledBack
           else persons_loop rejected db' rest current_date
                  (count + 1, calls @ [(p_id person, current_date, True)]))
      | Inl e \<Rightarrow>
          persons_loop rejected db rest current_date
            (count, calls @ [(p_id person, current_date, False)]))"

text \<open>The outer loop \<open>while current_date <= end_date\<close>.\<close>

function days_loop ::
  "flush_verdicts \<Rightarrow> database \<Rightarrow> person list \<Rightarrow> date \<Rightarrow> date \<Rightarrow> int \<times> call_trace
    \<Rightarrow> batch_failure + (database \<times> int \<times> call_trace)" where
  "days_loop rejected db persons current_date end_date st =
     (if current_date \<le> end_date
      then (case persons_loop rejected db persons current_date st of
              Inl e \<Rightarrow> Inl e
            | Inr (db', st') \<Rightarrow> days_loop rejected db' persons (current_date + 1) end_date st')
      else Inr (db, st))"
  by pat_completeness auto
termination
  by (relation "measure (\<lambda>(r, db, ps, cur, e, st). nat (e - cur + 1))") auto

declare days_loop.simps [simp del]

text \<open>
  \<open>ActivityStatsService.bulk_aggregate_daily_activities\<close>: the exception that ended the
  batch, or the new database (committed at the end), the returned count and the trace of
  calls.
\<close>

definition bulk_aggregate_daily_activities ::
  "flush_verdicts \<Rightarrow> database \<Rightarrow> person list \<Rightarrow> date \<Rightarrow> date
    \<Rightarrow> batch_failure + (database \<times> int \<times> call_trace)" where
  "bulk_aggregate_daily_activities rejected db persons_table start_date end_date =
     (case get_all persons_table 0 10000 of
        (persons, _) \<Rightarrow> days_loop rejected db persons start_date end_date (0, []))"

text \<open>The combinations of the days of a range, in order, with the given persons.\<close>

definition day_person_pairs :: "person list \<Rightarrow> date \<Rightarrow> date \<Rightarrow> (int \<times> date) list" where
  "day_person_pairs persons start_date end_date =
     concat (map (\<lambda>d. map (\<lambda>p. (p_id p, d)) persons) [start_date..end_date])"

text \<open>A person table of 10001 rows, with the ids 1 to 10001.\<close>

definition many_persons :: "person list" where
  "many_persons = map (\<lambda>i. \<lparr>p_id = int i, p_username = []\<rparr>) [1..<10002]"

definition empty_db :: database where
  "empty_db = \<lparr>conversation_activities = [], task_activities = [], activity_summaries = []\<rparr>"

definition three_persons :: "person list" where
  "three_persons = [\<lparr>p_id = 7, p_username = ''ann''\<rparr>, \<lparr>p_id = 8, p_username = ''bob''\<rparr>,
                    \<lparr>p_id = 9, p_username = ''cy''\<rparr>]"

section \<open>The task ledger\<close>

text \<open>
  The dictionary that \<open>sync_tasks\<close> prepares for one assignee of one completed task and
  hands to \<open>bulk_create_tasks\<close>.
\<close>

record task_entry =
  te_person_id :: int
  te_notion_task_id :: string
  te_task_title :: "string option"
  te_project_name :: "string option"
  te_completed_at :: datetime
  te_last_status_change :: "datetime option"
  te_notion_metadata :: "json option"

text \<open>Python truthiness of an optional string and of an optional dictionary.\<close>

definition truthy_str :: "string option \<Rightarrow> bool" where
  "truthy_str v \<longleftrightarrow> (case v of None \<Rightarrow> False | Some s \<Rightarrow> s \<noteq> [])"

definition truthy_json :: "json option \<Rightarrow> bool" where
  "truthy_json v \<longleftrightarrow> (case v of None \<Rightarrow> False | Some d \<Rightarrow> d \<noteq> [])"

text \<open>\<open>ActivityRepository.get_task_by_notion_id\<close>.\<close>

definition get_task_by_notion_id ::
  "task_activity list \<Rightarrow> string \<Rightarrow> error + task_activity option" where
  "get_task_by_notion_id tbl nid = scalar_one_or_none (filter (\<lambda>t. notion_task_id t = nid) tbl)"

text \<open>
  \<open>ActivityRepository.create_task_activity\<close>: the new row; \<open>last_synced_at\<close> is the
  server default \<open>now()\<close>.
\<close>

definition create_task_activity :: "task_entry \<Rightarrow> datetime \<Rightarrow> task_activity" where
  "create_task_activity task now =
     \<lparr>task_person_id = te_person_id task, notion_task_id = te_notion_task_id task,
      task_title = te_task_title task, project_name = te_project_name task,
      completed_at = te_completed_at task, last_status_change = te_last_status_change task,
      task_last_synced_at = now, task_notion_metadata = te_notion_metadata task\<rparr>"

text \<open>
  The \<open>else\<close> branch of \<open>bulk_create_tasks\<close>: the field updates of an existing row, in
  the order of the source. A \<open>datetime\<close> is always truthy, so the test on
  \<open>completed_at\<close> is the comparison alone. The list \<open>updated\<close> only feeds a log line.
\<close>

definition update_existing_task :: "task_activity \<Rightarrow> task_entry \<Rightarrow> datetime \<Rightarrow> task_activity" where
  "update_existing_task existing task now =
     (let e1 = (if truthy_str (te_task_title task) \<and> task_title existing \<noteq> te_task_title task
                then existing\<lparr>task_title := te_task_title task\<rparr> else existing);
          e2 = (if te_project_name task \<noteq> project_name e1
                then e1\<lparr>project_name := te_project_name task\<rparr> else e1);
          e3 = (if truthy_json (te_notion_metadata task) \<and> \<not> truthy_json (task_notion_metadata e2)
                then e2\<lparr>task_notion_metadata := te_notion_metadata task\<rparr> else e2);
          e4 = (if completed_at e3 \<noteq> te_completed_at task
                then e3\<lparr>completed_at := te_completed_at task\<rparr> else e3);
          e5 = (if te_last_status_change task \<noteq> None
                   \<and> last_status_change e4 \<noteq> te_last_status_change task
                then e4\<lparr>last_status_change := te_last_status_change task\<rparr> else e4)
      in e5\<lparr>task_last_synced_at := now\<rparr>)"

text \<open>
  The loop of \<open>ActivityRepository.bulk_create_tasks\<close>; the state is the table and the
  list \<open>created\<close>. \<open>now\<close> is the clock reading of the run.
\<close>

fun bulk_create_tasks_loop ::
  "task_activity list \<Rightarrow> task_entry list \<Rightarrow> datetime \<Rightarrow> task_activity list
    \<Rightarrow> error + (task_activity list \<times> task_activity list)" where
  "bulk_create_tasks_loop tbl [] now created = Inr (tbl, created)"
| "bulk_create_tasks_loop tbl (task # rest) now created =
     (case get_task_by_notion_id tbl (te_notion_task_id task) of
        Inl e \<Rightarrow> Inl e
      | Inr None \<Rightarrow>
          (let activity = create_task_activity task now
           in bulk_create_tasks_loop (tbl @ [activity]) rest now (created @ [activity]))
      | Inr (Some existing) \<Rightarrow>
          (let existing' = update_existing_task existing task now
           in bulk_create_tasks_loop
                (map (\<lambda>r. if notion_task_id r = te_notion_task_id task then existing' else r) tbl)
                rest now created))"

definition bulk_create_tasks ::
  "task_activity list \<Rightarrow> task_entry list \<Rightarrow> datetime
    \<Rightarrow> error + (task_activity list \<times> task_activity list)" where
  "bulk_create_tasks tbl tasks now = bulk_create_tasks_loop tbl tasks now []"

text \<open>
  A page of the Kanban database after the field extraction of \<open>sync_tasks\<close> (which is
  outside this model): its id, status name, title, project, completion time, last edit
  time, metadata, and the local ids of its assignees in the order in which
  \<open>get_or_create_by_notion_id\<close> resolved them.
\<close>

record task_page =
  page_id :: string
  page_status :: "string option"
  page_title :: string
  page_project :: "string option"
  page_completed_at :: datetime
  page_last_edited_time :: datetime
  page_assignees :: "int list"
  page_metadata :: json

text \<open>
  The page loop of \<open>sync_tasks\<close>: only pages with status "Done" are processed, and one
  entry is prepared for each assignee.
\<close>

definition prepare_task_activities :: "task_page list \<Rightarrow> task_entry list" where
  "prepare_task_activities pages =
     concat (map (\<lambda>page.
        if page_status page \<noteq> Some ''Done'' then []
        else map (\<lambda>pid. \<lparr>te_person_id = pid, te_notion_task_id = page_id page,
                           te_task_title = Some (page_title page),
                           te_project_name = page_project page,
                           te_completed_at = page_completed_at page,
                           te_last_status_change = Some (page_last_edited_time page),
                           te_notion_metadata = Some (page_metadata page)\<rparr>)
               (page_assignees page)) pages)"

text \<open>
  \<open>sync_tasks\<close> on the fetched pages: the new table and \<open>stats["synced"]\<close>. An exception
  of \<open>bulk_create_tasks\<close> (which \<open>sync_tasks\<close> turns into an entry of its error list) is
  the value \<open>Inl\<close>.
\<close>

definition sync_tasks ::
  "task_activity list \<Rightarrow> task_page list \<Rightarrow> datetime \<Rightarrow> error + (task_activity list \<times> int)" where
  "sync_tasks tbl pages now =
     (let entries = prepare_task_activities pages
      in if entries \<noteq> []
         then (case bulk_create_tasks tbl entries now of
                 Inl e \<Rightarrow> Inl e
               | Inr (tbl', created) \<Rightarrow> Inr (tbl', int (length created)))
         else Inr (tbl, 0))"

text \<open>A sequence of syncs, each with the pages fetched and the clock reading of that run.\<close>

fun sync_runs ::
  "(task_page list \<times> datetime) list \<Rightarrow> task_activity list \<Rightarrow> error + task_activity list" where
  "sync_runs [] tbl = Inr tbl"
| "sync_runs ((pages, now) # runs) tbl =
     (case sync_tasks tbl pages now of
        Inl e \<Rightarrow> Inl e
      | Inr (tbl', synced) \<Rightarrow> sync_runs runs tbl')"

text \<open>The owning persons of the ledger rows of one external task id.\<close>

definition owners :: "task_activity list \<Rightarrow> string \<Rightarrow> int list" where
  "owners tbl nid = map task_person_id (filter (\<lambda>t. notion_task_id t = nid) tbl)"

text \<open>The person of the first prepared entry of one external task id, if any.\<close>

definition first_assignee :: "task_entry list \<Rightarrow> string \<Rightarrow> int list" where
  "first_assignee entries nid =
     (case filter (\<lambda>e. te_notion_task_id e = nid) entries of [] \<Rightarrow> [] | e # _ \<Rightarrow> [te_person_id e])"

text \<open>A completed task with the two assignees 7 and 8, and the same task renamed later.\<close>

definition shared_page :: task_page where
  "shared_page =
     \<lparr>page_id = ''task-1'', page_status = Some ''Done'', page_title = ''Ship it'',
      page_project = Some ''Core'', page_completed_at = 19000 * day_us + 100,
      page_last_edited_time = 19000 * day_us + 200, page_assignees = [7, 8],
      page_metadata = [(''notion_url'', ''u'')]\<rparr>"

definition renamed_page :: task_page where
  "renamed_page = shared_page\<lparr>page_title := ''Shipped'', page_assignees := [8, 7]\<rparr>"

section \<open>Cache refresh\<close>

text \<open>A row of the table \<open>cache_metadata\<close>.\<close>

record cache_metadata =
  cache_type :: string
  last_updated :: datetime
  is_updating :: bool
  total_records :: int
  update_duration_seconds :: "int option"
  error_message :: "string option"

text \<open>A project as \<open>NotionService.get_all_projects\<close> returns it (\<open>NotionProject\<close>).\<close>

record notion_project =
  np_page_id :: string
  np_project_name :: string
  np_health_status :: "string option"
  np_health_color :: "string option"
  np_status :: "string option"
  np_priority :: "string option"
  np_priority_color :: "string option"
  np_assignees :: "string list"
  np_task_count :: int
  np_url :: string
  np_created_time :: datetime
  np_last_edited_time :: datetime

text \<open>A row of the table \<open>cached_notion_projects\<close>.\<close>

record cached_notion_project =
  cp_page_id :: string
  cp_project_name :: string
  cp_health_status :: "string option"
  cp_health_color :: "string option"
  cp_status :: "string option"
  cp_priority :: "string option"
  cp_priority_color :: "string option"
  cp_assignees :: "string list"
  cp_task_count :: int
  cp_url :: string
  cp_notion_created_time :: datetime
  cp_notion_last_edited_time :: datetime

text \<open>
  The committed state of the cache database: what a reader sees. Every operation of
  \<open>CacheRepository\<close> that writes ends with \<open>commit\<close>, so each one is a step from one
  committed state to the next.
\<close>

record cache_db =
  metadata_rows :: "cache_metadata list"
  cached_projects :: "cached_notion_project list"

text \<open>\<open>CacheRepository.get_cache_metadata\<close>: \<open>filter(...).first()\<close>.\<close>

definition get_cache_metadata :: "cache_db \<Rightarrow> string \<Rightarrow> cache_metadata option" where
  "get_cache_metadata db ct = find (\<lambda>m. cache_type m = ct) (metadata_rows db)"

text \<open>The mutation of the row that \<open>first()\<close> returned: the first matching row.\<close>

fun update_first :: "('a \<Rightarrow> bool) \<Rightarrow> ('a \<Rightarrow> 'a) \<Rightarrow> 'a list \<Rightarrow> 'a list" where
  "update_first P f [] = []"
| "update_first P f (x # xs) = (if P x then f x # xs else x # update_first P f xs)"

text \<open>\<open>CacheRepository.update_cache_metadata\<close>; \<open>now\<close> is \<open>datetime.utcnow()\<close>.\<close>

definition update_cache_metadata ::
  "cache_db \<Rightarrow> string \<Rightarrow> int \<Rightarrow> int \<Rightarrow> string option \<Rightarrow> datetime \<Rightarrow> cache_db" where
  "update_cache_metadata db ct records duration err now =
     (case get_cache_metadata db ct of
        Some metadata \<Rightarrow>
          db\<lparr>metadata_rows := update_first (\<lambda>m. cache_type m = ct)
                (\<lambda>m. m\<lparr>last_updated := now, is_updating := False, total_records := records,
                        update_duration_seconds := Some duration, error_message := err\<rparr>)
                (metadata_rows db)\<rparr>
      | None \<Rightarrow>
          db\<lparr>metadata_rows := metadata_rows db @
                [\<lparr>cache_type = ct, last_updated = now, is_updating = False,
                  total_records = records, update_duration_seconds = Some duration,
                  error_message = err\<rparr>]\<rparr>)"

text \<open>\<open>CacheRepository.set_cache_updating\<close>.\<close>

definition set_cache_updating :: "cache_db \<Rightarrow> string \<Rightarrow> bool \<Rightarrow> datetime \<Rightarrow> cache_db" where
  "set_cache_updating db ct updating now =
     (case get_cache_metadata db ct of
        Some metadata \<Rightarrow>
          db\<lparr>metadata_rows := update_first (\<lambda>m. cache_type m = ct)
                (\<lambda>m. m\<lparr>is_updating := updating\<rparr>) (metadata_rows db)\<rparr>
      | None \<Rightarrow>
          db\<lparr>metadata_rows := metadata_rows db @
                [\<lparr>cache_type = ct, last_updated = now, is_updating = updating,
                  total_records = 0, update_duration_seconds = None,
                  error_message = None\<rparr>]\<rparr>)"

text \<open>\<open>CacheRepository.clear_projects_cache\<close>: delete every row and commit.\<close>

definition clear_projects_cache :: "cache_db \<Rightarrow> cache_db" where
  "clear_projects_cache db = db\<lparr>cached_projects := []\<rparr>"

text \<open>
  The constraints of \<open>cached_notion_projects\<close> that decide, from the batch alone, that
  the database refuses it: the primary key \<open>page_id\<close>, the lengths of the \<open>String(n)\<close>
  columns and the 32-bit range of the \<open>Integer\<close> column.
\<close>

definition opt_fits :: "nat \<Rightarrow> string option \<Rightarrow> bool" where
  "opt_fits n v \<longleftrightarrow> (case v of None \<Rightarrow> True | Some s \<Rightarrow> length s \<le> n)"

definition row_fits :: "cached_notion_project \<Rightarrow> bool" where
  "row_fits r \<longleftrightarrow> length (cp_page_id r) \<le> 100 \<and> length (cp_project_name r) \<le> 255
     \<and> opt_fits 50 (cp_health_status r) \<and> opt_fits 50 (cp_health_color r)
     \<and> opt_fits 100 (cp_status r) \<and> opt_fits 50 (cp_priority r)
     \<and> opt_fits 50 (cp_priority_color r) \<and> length (cp_url r) \<le> 500
     \<and> - 2147483648 \<le> cp_task_count r \<and> cp_task_count r \<le> 2147483647"

text \<open>
  \<open>CacheRepository.bulk_insert_projects\<close>: the batch is inserted and committed, or the
  database refuses it, nothing of it is stored, and the exception text is returned. The
  database refuses a batch that breaks one of the constraints above; \<open>other_failure\<close> is
  its answer in every other respect (a value it cannot store, a lost connection), which
  this repository does not decide.
\<close>

definition bulk_insert_projects ::
  "cache_db \<Rightarrow> cached_notion_project list \<Rightarrow> string option \<Rightarrow> string + cache_db" where
  "bulk_insert_projects db projects other_failure =
     (if \<not> distinct (map cp_page_id (cached_projects db @ projects))
      then Inl ''IntegrityError''
      else if \<not> list_all row_fits projects then Inl ''DataError''
      else (case other_failure of
              Some error_msg \<Rightarrow> Inl error_msg
            | None \<Rightarrow> Inr (db\<lparr>cached_projects := cached_projects db @ projects\<rparr>)))"

text \<open>
  The conversion loop of \<open>update_projects_cache\<close>. The two times of a \<open>NotionProject\<close>
  are \<open>datetime\<close> values, so the branch that parses strings is never taken.
\<close>

definition to_cached_project :: "notion_project \<Rightarrow> cached_notion_project" where
  "to_cached_project project =
     \<lparr>cp_page_id = np_page_id project, cp_project_name = np_project_name project,
      cp_health_status = np_health_status project, cp_health_color = np_health_color project,
      cp_status = np_status project, cp_priority = np_priority project,
      cp_priority_color = np_priority_color project, cp_assignees = np_assignees project,
      cp_task_count = np_task_count project, cp_url = np_url project,
      cp_notion_created_time = np_created_time project,
      cp_notion_last_edited_time = np_last_edited_time project\<rparr>"

text \<open>
  What a run of the task reads from outside the repository: the outcome of
  \<open>get_all_projects\<close> (the projects, or the text of the exception it raised), the two
  readings of \<open>time.time()\<close> in seconds, the two readings of \<open>datetime.utcnow()\<close>, and
  the database's answer to the bulk insert beyond the constraints of the table.
\<close>

record refresh_env =
  fetched :: "string + notion_project list"
  start_time :: int
  end_time :: int
  utcnow_start :: datetime
  utcnow_end :: datetime
  insert_failure :: "string option"

text \<open>
  How a run ends: the returned dictionary (\<open>success\<close> with \<open>total_records\<close> and
  \<open>duration_seconds\<close>, or \<open>skipped\<close>), the exception re-raised through \<open>self.retry\<close>
  with its text, or an exception raised inside the \<open>except\<close> branch itself, which leaves the
  task before \<open>self.retry\<close> is reached.
\<close>

datatype task_result = Success int int | Skipped | Retry string | HandlerRaised

text \<open>The \<open>except\<close> branch of \<open>update_projects_cache\<close> on a session that is in order.\<close>

definition on_refresh_error :: "cache_db \<Rightarrow> refresh_env \<Rightarrow> string \<Rightarrow> task_result \<times> cache_db" where
  "on_refresh_error db env error_msg =
     (let duration = end_time env - start_time env
      in (Retry error_msg,
          update_cache_metadata db ''projects'' 0 duration (Some error_msg) (utcnow_end env)))"

text \<open>
  The body of \<open>update_projects_cache\<close> after the flag has been set: fetch, clear,
  convert, insert, record. An exception of the fetch reaches the \<open>except\<close> branch with the
  session in order. A refused insert leaves the session rolled back and unusable until
  \<open>rollback()\<close> is called, which this task (unlike \<open>update_todos_cache\<close>) does not do: the
  \<open>update_cache_metadata\<close> of the \<open>except\<close> branch raises, so nothing is recorded and the
  committed state stays as the clear step left it, with the flag still set.
\<close>

definition fetch_and_replace :: "cache_db \<Rightarrow> refresh_env \<Rightarrow> task_result \<times> cache_db" where
  "fetch_and_replace db env =
     (case fetched env of
        Inl error_msg \<Rightarrow> on_refresh_error db env error_msg
      | Inr projects \<Rightarrow>
          (let db1 = clear_projects_cache db;
               cached = map to_cached_project projects
           in case bulk_insert_projects db1 cached (insert_failure env) of
                Inl error_msg \<Rightarrow> (HandlerRaised, db1)
              | Inr db2 \<Rightarrow>
                  (let duration = end_time env - start_time env
                   in (Success (int (length cached)) duration,
                       update_cache_metadata db2 ''projects'' (int (length cached)) duration None
                         (utcnow_end env)))))"

text \<open>The guard \<open>if metadata and metadata.is_updating\<close> for a cache type.\<close>

definition already_updating :: "cache_db \<Rightarrow> string \<Rightarrow> bool" where
  "already_updating db ct =
     (case get_cache_metadata db ct of None \<Rightarrow> False | Some metadata \<Rightarrow> is_updating metadata)"

text \<open>
  The opening of \<open>update_projects_cache\<close>, \<open>update_tasks_cache\<close> and
  \<open>update_todos_cache\<close>, the same in all three but for the cache type: the check, and
  then either the early return of the "skipped" dictionary or the write of the flag.
\<close>

definition begin_refresh ::
  "cache_db \<Rightarrow> string \<Rightarrow> datetime \<Rightarrow> (task_result \<times> cache_db) + cache_db" where
  "begin_refresh db ct now =
     (if already_updating db ct then Inl (Skipped, db)
      else Inr (set_cache_updating db ct True now))"

text \<open>The Celery task \<open>update_projects_cache\<close>, run without interruption.\<close>

definition update_projects_cache :: "cache_db \<Rightarrow> refresh_env \<Rightarrow> task_result \<times> cache_db" where
  "update_projects_cache db env =
     (case begin_refresh db ''projects'' (utcnow_start env) of
        Inl skipped \<Rightarrow> skipped
      | Inr db1 \<Rightarrow> fetch_and_replace db1 env)"

text \<open>
  The same task as a worker that other workers can interleave with. A worker is at one of
  four points: before the check, after a check that found the flag clear, after its own
  write of the flag (the refresh is in progress), or finished.
\<close>

datatype stage = Ready | Checked | InProgress | Finished task_result

fun worker_step :: "refresh_env \<Rightarrow> cache_db \<times> stage \<Rightarrow> cache_db \<times> stage" where
  "worker_step env (db, Ready) = (if already_updating db ''projects'' then (db, Finished Skipped) else (db, Checked))"
| "worker_step env (db, Checked) = (set_cache_updating db ''projects'' True (utcnow_start env), InProgress)"
| "worker_step env (db, InProgress) = (case fetch_and_replace db env of (r, db') \<Rightarrow> (db', Finished r))"
| "worker_step env (db, Finished r) = (db, Finished r)"

text \<open>
  A schedule names, step by step, the worker that moves next; all workers share the
  database.
\<close>

fun run_schedule :: "refresh_env \<Rightarrow> nat list \<Rightarrow> cache_db \<times> stage list \<Rightarrow> cache_db \<times> stage list" where
  "run_schedule env [] st = st"
| "run_schedule env (w # ws) (db, stages) =
     (if w < length stages
      then (case worker_step env (db, stages ! w) of
              (db', s') \<Rightarrow> run_schedule env ws (db', stages[w := s']))
      else run_schedule env ws (db, stages))"

text \<open>Sample data: a cache holding one project, idle or marked as updating.\<close>

definition old_project :: cached_notion_project where
  "old_project =
     \<lparr>cp_page_id = ''p-old'', cp_project_name = ''Legacy'', cp_health_status = None,
      cp_health_color = None, cp_status = Some ''Active'', cp_priority = None,
      cp_priority_color = None, cp_assignees = [], cp_task_count = 3, cp_url = ''u-old'',
      cp_notion_created_time = 1, cp_notion_last_edited_time = 2\<rparr>"

definition idle_cache :: cache_db where
  "idle_cache =
     \<lparr>metadata_rows = [\<lparr>cache_type = ''projects'', last_updated = 10, is_updating = False,
                         total_records = 1, update_duration_seconds = Some 2,
                         error_message = None\<rparr>],
      cached_projects = [old_project]\<rparr>"

definition busy_cache :: cache_db where
  "busy_cache =
     \<lparr>metadata_rows = [\<lparr>cache_type = ''projects'', last_updated = 10, is_updating = True,
                         total_records = 1, update_duration_seconds = Some 2,
                         error_message = None\<rparr>],
      cached_projects = [old_project]\<rparr>"

definition new_project :: notion_project where
  "new_project =
     \<lparr>np_page_id = ''p-new'', np_project_name = ''Fresh'', np_health_status = None,
      np_health_color = None, np_status = None, np_priority = None, np_priority_color = None,
      np_assignees = [], np_task_count = 0, np_url = ''u-new'', np_created_time = 3,
      np_last_edited_time = 4\<rparr>"

text \<open>A project whose name has 256 characters, one more than the column holds.\<close>

definition long_name_project :: notion_project where
  "long_name_project = new_project\<lparr>np_project_name := replicate 256 (CHR ''x'')\<rparr>"

definition env_ok :: refresh_env where
  "env_ok = \<lparr>fetched = Inr [new_project], start_time = 100, end_time = 103,
             utcnow_start = 20, utcnow_end = 23, insert_failure = None\<rparr>"

definition env_fetch_fails :: refresh_env where
  "env_fetch_fails = env_ok\<lparr>fetched := Inl ''timeout''\<rparr>"

definition env_insert_fails :: refresh_env where
  "env_insert_fails = env_ok\<lparr>fetched := Inr [long_name_project]\<rparr>"

section \<open>Proofs\<close>

section \<open>Facts about aggregation\<close>

lemma date_of_combine_min [simp]: "date_of (combine_min d) = d"
  by (simp add: date_of_def combine_min_def day_us_def)

lemma closed_day_iff_half_open:
  "combine_min d \<le> ts \<and> ts \<le> combine_max d \<longleftrightarrow> d * day_us \<le> ts \<and> ts < (d + 1) * day_us"
  by (auto simp: combine_min_def combine_max_def day_us_def algebra_simps)

lemma same_person_day_key:
  "same_person_day pid dt r \<longleftrightarrow> (sum_person_id r, date_of (sum_date r)) = (pid, date_of dt)"
  by (simp add: same_person_day_def)

lemma distinct_keys_filter:
  "distinct (summary_keys tbl) \<Longrightarrow> length (filter (same_person_day pid dt) tbl) \<le> 1"
proof (induction tbl)
  case Nil
  then show ?case by simp
next
  case (Cons r tbl)
  show ?case
  proof (cases "same_person_day pid dt r")
    case True
    have "filter (same_person_day pid dt) tbl = []"
    proof (rule ccontr)
      assume "filter (same_person_day pid dt) tbl \<noteq> []"
      then obtain q where q: "q \<in> set tbl" "same_person_day pid dt q"
        by (metis filter_False)
      from q have "(sum_person_id q, date_of (sum_date q)) \<in> set (summary_keys tbl)"
        by (simp add: summary_keys_def)
      with True q have "(sum_person_id r, date_of (sum_date r)) \<in> set (summary_keys tbl)"
        by (simp add: same_person_day_def)
      with Cons.prems show False by (simp add: summary_keys_def)
    qed
    with True show ?thesis by simp
  next
    case False
    with Cons show ?thesis by (simp add: summary_keys_def)
  qed
qed

lemma filter_le_one_cases:
  assumes "length xs \<le> 1"
  shows "xs = [] \<or> (\<exists>x. xs = [x])"
  using assms by (cases xs) (auto simp: length_Suc_conv)

lemma map_keys_update:
  assumes "same_person_day pid dt s'"
  shows "summary_keys (map (\<lambda>r. if same_person_day pid dt r then s' else r) tbl) = summary_keys tbl"
  using assms by (induction tbl) (auto simp: summary_keys_def same_person_day_def)

lemma filter_update:
  assumes "same_person_day pid dt s'"
  shows "filter (same_person_day pid dt) (map (\<lambda>r. if same_person_day pid dt r then s' else r) tbl)
         = map (\<lambda>_. s') (filter (same_person_day pid dt) tbl)"
  using assms by (induction tbl) auto

lemma create_or_update_summary_ok:
  assumes "distinct (summary_keys tbl)"
  shows "\<exists>tbl'. create_or_update_summary tbl pid dt cc tc sc
            = Inr (tbl', \<lparr>sum_person_id = pid, sum_date = dt, conversations_created = cc,
                          tasks_completed = tc, total_activity_score = sc\<rparr>)
          \<and> distinct (summary_keys tbl')
          \<and> filter (same_person_day pid dt) tbl'
             = [\<lparr>sum_person_id = pid, sum_date = dt, conversations_created = cc,
                          tasks_completed = tc, total_activity_score = sc\<rparr>]"
proof -
  let ?new = "\<lparr>sum_person_id = pid, sum_date = dt, conversations_created = cc,
                          tasks_completed = tc, total_activity_score = sc\<rparr>"
  have new_same: "same_person_day pid dt ?new" by (simp add: same_person_day_def)
  from distinct_keys_filter[OF assms, of pid dt]
  consider "filter (same_person_day pid dt) tbl = []"
    | x where "filter (same_person_day pid dt) tbl = [x]"
    using filter_le_one_cases by blast
  then show ?thesis
  proof cases
    case 1
    then have notin: "\<forall>r \<in> set tbl. \<not> same_person_day pid dt r"
      by (simp add: filter_empty_conv)
    then have "(pid, date_of dt) \<notin> set (summary_keys tbl)"
      by (auto simp: summary_keys_def same_person_day_def)
    with assms have "distinct (summary_keys (tbl @ [?new]))"
      by (simp add: summary_keys_def)
    moreover have "filter (same_person_day pid dt) (tbl @ [?new]) = [?new]"
      using 1 new_same by simp
    moreover have "create_or_update_summary tbl pid dt cc tc sc = Inr (tbl @ [?new], ?new)"
      using 1 by (simp add: create_or_update_summary_def Let_def)
    ultimately show ?thesis by blast
  next
    case 2
    then have "x \<in> set (filter (same_person_day pid dt) tbl)" by simp
    then have "sum_person_id x = pid" by (simp add: same_person_day_def)
    then have upd: "x\<lparr>sum_date := dt, conversations_created := cc,
                                   tasks_completed := tc, total_activity_score := sc\<rparr> = ?new"
      by (cases x) simp
    let ?tbl' = "map (\<lambda>r. if same_person_day pid dt r then ?new else r) tbl"
    have "create_or_update_summary tbl pid dt cc tc sc = Inr (?tbl', ?new)"
      using 2 by (simp add: create_or_update_summary_def upd Let_def)
    moreover have "distinct (summary_keys ?tbl')"
      using assms new_same by (simp add: map_keys_update)
    moreover have "filter (same_person_day pid dt) ?tbl' = [?new]"
      using 2 new_same by (simp add: filter_update)
    ultimately show ?thesis by blast
  qed
qed

lemma aggregate_ok:
  assumes "distinct (summary_keys (activity_summaries db))"
  shows "\<exists>tbl'. aggregate_daily_activities db p d
            = Inr (db\<lparr>activity_summaries := tbl'\<rparr>,
                   \<lparr>sum_person_id = p, sum_date = combine_min d,
                    conversations_created = spec_conversation_count (conversation_activities db) p d,
                    tasks_completed = spec_task_count (task_activities db) p d,
                    total_activity_score = spec_conversation_count (conversation_activities db) p d
                        + 2 * spec_task_count (task_activities db) p d\<rparr>)
          \<and> distinct (summary_keys tbl')
          \<and> filter (same_person_day p (combine_min d)) tbl'
             = [\<lparr>sum_person_id = p, sum_date = combine_min d,
                    conversations_created = spec_conversation_count (conversation_activities db) p d,
                    tasks_completed = spec_task_count (task_activities db) p d,
                    total_activity_score = spec_conversation_count (conversation_activities db) p d
                        + 2 * spec_task_count (task_activities db) p d\<rparr>]"
proof -
  let ?cc = "spec_conversation_count (conversation_activities db) p d"
  let ?tc = "spec_task_count (task_activities db) p d"
  from create_or_update_summary_ok[OF assms, of p "combine_min d" ?cc ?tc "?cc + ?tc * 2"]
  obtain tbl' where t: "create_or_update_summary (activity_summaries db) p (combine_min d) ?cc ?tc (?cc + ?tc * 2)
       = Inr (tbl', \<lparr>sum_person_id = p, sum_date = combine_min d, conversations_created = ?cc,
                          tasks_completed = ?tc, total_activity_score = ?cc + ?tc * 2\<rparr>)"
     "distinct (summary_keys tbl')"
     "filter (same_person_day p (combine_min d)) tbl'
             = [\<lparr>sum_person_id = p, sum_date = combine_min d, conversations_created = ?cc,
                          tasks_completed = ?tc, total_activity_score = ?cc + ?tc * 2\<rparr>]"
    by blast
  have "aggregate_daily_activities db p d = Inr (db\<lparr>activity_summaries := tbl'\<rparr>,
      \<lparr>sum_person_id = p, sum_date = combine_min d, conversations_created = ?cc,
                          tasks_completed = ?tc, total_activity_score = ?cc + ?tc * 2\<rparr>)"
    using t(1)
    by (simp add: aggregate_daily_activities_def Let_def spec_conversation_count_def spec_task_count_def
        closed_day_iff_half_open)
  with t(2,3) show ?thesis by (auto simp: mult.commute)
qed

lemma map_update_id:
  "filter P xs = [s] \<Longrightarrow> map (\<lambda>r. if P r then s else r) xs = xs"
proof (induction xs)
  case Nil
  then show ?case by simp
next
  case (Cons x xs)
  show ?case
  proof (cases "P x")
    case True
    with Cons.prems have "x = s" "filter P xs = []" by simp_all
    then have "\<forall>r \<in> set xs. \<not> P r" by (simp add: filter_empty_conv)
    then have "map (\<lambda>r. if P r then s else r) xs = xs" by (simp add: map_idI)
    with True \<open>x = s\<close> show ?thesis by simp
  next
    case False
    with Cons show ?thesis by simp
  qed
qed

lemma aggregate_again:
  assumes "filter (same_person_day p (combine_min d)) (activity_summaries db) = [s]"
    and "s = \<lparr>sum_person_id = p, sum_date = combine_min d,
                    conversations_created = spec_conversation_count (conversation_activities db) p d,
                    tasks_completed = spec_task_count (task_activities db) p d,
                    total_activity_score = spec_conversation_count (conversation_activities db) p d
                        + 2 * spec_task_count (task_activities db) p d\<rparr>"
  shows "aggregate_daily_activities db p d = Inr (db, s)"
proof -
  let ?cc = "spec_conversation_count (conversation_activities db) p d"
  let ?tc = "spec_task_count (task_activities db) p d"
  have upd: "s\<lparr>sum_date := combine_min d, conversations_created := ?cc,
               tasks_completed := ?tc, total_activity_score := ?cc + ?tc * 2\<rparr> = s"
    using assms(2) by (simp add: mult.commute)
  have "create_or_update_summary (activity_summaries db) p (combine_min d) ?cc ?tc (?cc + ?tc * 2)
          = Inr (activity_summaries db, s)"
    using assms(1) by (simp add: create_or_update_summary_def Let_def upd map_update_id)
  then show ?thesis
    by (simp add: aggregate_daily_activities_def Let_def spec_conversation_count_def spec_task_count_def
        closed_day_iff_half_open)
qed

lemma aggregate_runs_append:
  "aggregate_runs (xs @ ys) tbl p d =
     (case aggregate_runs xs tbl p d of Inl e \<Rightarrow> Inl e | Inr t \<Rightarrow> aggregate_runs ys t p d)"
  by (induction xs tbl p d rule: aggregate_runs.induct) (auto split: sum.splits)

lemma aggregate_runs_ok:
  "distinct (summary_keys tbl) \<Longrightarrow>
     \<exists>tbl'. aggregate_runs ledgers tbl p d = Inr tbl' \<and> distinct (summary_keys tbl')"
proof (induction ledgers arbitrary: tbl)
  case Nil
  then show ?case by simp
next
  case (Cons l ledgers)
  obtain cs ts where l: "l = (cs, ts)" by (cases l)
  let ?db = "\<lparr>conversation_activities = cs, task_activities = ts, activity_summaries = tbl\<rparr>"
  from aggregate_ok[of ?db p d] Cons.prems
  obtain tbl1 s where a: "aggregate_daily_activities ?db p d = Inr (?db\<lparr>activity_summaries := tbl1\<rparr>, s)"
    "distinct (summary_keys tbl1)" by auto
  from Cons.IH[OF a(2)] show ?case using a(1) l by simp
qed

lemma same_person_day_combine_min:
  "same_person_day P (combine_min D) = (\<lambda>r. sum_person_id r = P \<and> date_of (sum_date r) = D)"
  by (rule ext) (simp add: same_person_day_def)

text \<open>
  Claim C1. On a summary table with at most one row per person and day, aggregating person
  \<open>P\<close> on day \<open>D\<close> succeeds and leaves exactly one row for (\<open>P\<close>, \<open>D\<close>), dated 00:00 of
  \<open>D\<close>, whose \<open>conversations_created\<close> is the number of conversations of \<open>P\<close> with a
  timestamp in the half-open interval [\<open>D\<close> 00:00, \<open>D\<close> 24:00), whose \<open>tasks_completed\<close> is the
  number of task completions of \<open>P\<close> in that interval, and whose score is the first plus
  twice the second. The source compares with the closed interval ending at 23:59:59.999999;
  at microsecond resolution the two intervals hold the same instants.
\<close>

theorem aggregate_counts_half_open_day:
  assumes "distinct (summary_keys (activity_summaries db))"
  shows "\<exists>db' s. aggregate_daily_activities db P D = Inr (db', s)
           \<and> filter (\<lambda>r. sum_person_id r = P \<and> date_of (sum_date r) = D) (activity_summaries db') = [s]
           \<and> sum_person_id s = P \<and> sum_date s = combine_min D
           \<and> conversations_created s = spec_conversation_count (conversation_activities db) P D
           \<and> tasks_completed s = spec_task_count (task_activities db) P D
           \<and> total_activity_score s = conversations_created s + 2 * tasks_completed s"
proof -
  from aggregate_ok[OF assms, of P D] obtain tbl' s where
    "aggregate_daily_activities db P D = Inr (db\<lparr>activity_summaries := tbl'\<rparr>, s)"
    "filter (same_person_day P (combine_min D)) tbl' = [s]"
    "s = \<lparr>sum_person_id = P, sum_date = combine_min D,
          conversations_created = spec_conversation_count (conversation_activities db) P D,
          tasks_completed = spec_task_count (task_activities db) P D,
          total_activity_score = spec_conversation_count (conversation_activities db) P D
                        + 2 * spec_task_count (task_activities db) P D\<rparr>"
    by blast
  then show ?thesis by (simp add: same_person_day_combine_min)
qed

lemma example_db_keys: "distinct (summary_keys (activity_summaries example_db))"
  by (simp add: example_db_def summary_keys_def date_of_def day_us_def)

lemma example_db_counts:
  "spec_conversation_count (conversation_activities example_db) 7 19000 = 3"
  "spec_task_count (task_activities example_db) 7 19000 = 2"
  by (simp_all add: example_db_def spec_conversation_count_def spec_task_count_def day_us_def)

theorem aggregate_counts_half_open_day_witness:
  "distinct (summary_keys (activity_summaries example_db))
   \<and> (\<exists>db' s. aggregate_daily_activities example_db 7 19000 = Inr (db', s)
          \<and> conversations_created s = 3 \<and> tasks_completed s = 2 \<and> total_activity_score s = 7)"
  using aggregate_counts_half_open_day[OF example_db_keys, of 7 19000] example_db_keys
  by (auto simp: example_db_counts)

text \<open>
  Claim C2. On a well-formed summary table, aggregating (\<open>P\<close>, \<open>D\<close>) a second time with the
  ledger unchanged returns the same summary and leaves the table as the first run left it;
  and after any positive number of runs, whatever the ledger was at each of them, the table
  holds exactly one row for (\<open>P\<close>, \<open>D\<close>), and its fields are the counts of the ledger of the
  last run alone (recomputed, not accumulated).
\<close>

theorem aggregate_idempotent_one_row:
  assumes "distinct (summary_keys (activity_summaries db))"
  shows "(\<exists>db1 s1. aggregate_daily_activities db P D = Inr (db1, s1)
            \<and> aggregate_daily_activities db1 P D = Inr (db1, s1))
       \<and> (\<forall>ledgers cs ts. \<exists>tbl'.
             aggregate_runs (ledgers @ [(cs, ts)]) (activity_summaries db) P D = Inr tbl'
             \<and> filter (\<lambda>r. sum_person_id r = P \<and> date_of (sum_date r) = D) tbl'
                 = [\<lparr>sum_person_id = P, sum_date = combine_min D,
                     conversations_created = spec_conversation_count cs P D,
                     tasks_completed = spec_task_count ts P D,
                     total_activity_score = spec_conversation_count cs P D + 2 * spec_task_count ts P D\<rparr>])"
proof (intro conjI allI)
  from aggregate_ok[OF assms, of P D] obtain tbl1 s1 where a:
    "aggregate_daily_activities db P D = Inr (db\<lparr>activity_summaries := tbl1\<rparr>, s1)"
    "filter (same_person_day P (combine_min D)) tbl1 = [s1]"
    "s1 = \<lparr>sum_person_id = P, sum_date = combine_min D,
          conversations_created = spec_conversation_count (conversation_activities db) P D,
          tasks_completed = spec_task_count (task_activities db) P D,
          total_activity_score = spec_conversation_count (conversation_activities db) P D
                        + 2 * spec_task_count (task_activities db) P D\<rparr>"
    by blast
  have "aggregate_daily_activities (db\<lparr>activity_summaries := tbl1\<rparr>) P D
          = Inr (db\<lparr>activity_summaries := tbl1\<rparr>, s1)"
    by (rule aggregate_again) (use a in simp_all)
  with a(1) show "\<exists>db1 s1. aggregate_daily_activities db P D = Inr (db1, s1)
            \<and> aggregate_daily_activities db1 P D = Inr (db1, s1)"
    by blast
next
  fix ledgers cs ts
  from aggregate_runs_ok[OF assms, of ledgers P D] obtain tbl0 where r:
    "aggregate_runs ledgers (activity_summaries db) P D = Inr tbl0" "distinct (summary_keys tbl0)"
    by blast
  let ?db = "\<lparr>conversation_activities = cs, task_activities = ts, activity_summaries = tbl0\<rparr>"
  from aggregate_ok[of ?db P D] r(2) obtain tbl' s where a:
    "aggregate_daily_activities ?db P D = Inr (?db\<lparr>activity_summaries := tbl'\<rparr>, s)"
    "filter (same_person_day P (combine_min D)) tbl' = [s]"
    "s = \<lparr>sum_person_id = P, sum_date = combine_min D,
          conversations_created = spec_conversation_count cs P D,
          tasks_completed = spec_task_count ts P D,
          total_activity_score = spec_conversation_count cs P D + 2 * spec_task_count ts P D\<rparr>"
    by auto
  have "aggregate_runs (ledgers @ [(cs, ts)]) (activity_summaries db) P D = Inr tbl'"
    using r(1) a(1) by (simp add: aggregate_runs_append)
  with a(2,3) show "\<exists>tbl'.
             aggregate_runs (ledgers @ [(cs, ts)]) (activity_summaries db) P D = Inr tbl'
             \<and> filter (\<lambda>r. sum_person_id r = P \<and> date_of (sum_date r) = D) tbl'
                 = [\<lparr>sum_person_id = P, sum_date = combine_min D,
                     conversations_created = spec_conversation_count cs P D,
                     tasks_completed = spec_task_count ts P D,
                     total_activity_score = spec_conversation_count cs P D + 2 * spec_task_count ts P D\<rparr>]"
    by (simp add: same_person_day_combine_min)
qed

theorem aggregate_idempotent_one_row_witness:
  "distinct (summary_keys (activity_summaries example_db))
   \<and> (\<exists>db1 s1. aggregate_daily_activities example_db 7 19000 = Inr (db1, s1)
            \<and> aggregate_daily_activities db1 7 19000 = Inr (db1, s1))
   \<and> (\<exists>tbl'. aggregate_runs
            [(conversation_activities example_db, task_activities example_db),
             (conversation_activities example_db, task_activities example_db)]
            (activity_summaries example_db) 7 19000 = Inr tbl'
          \<and> filter (\<lambda>r. sum_person_id r = 7 \<and> date_of (sum_date r) = 19000) tbl'
              = [\<lparr>sum_person_id = 7, sum_date = combine_min 19000, conversations_created = 3,
                  tasks_completed = 2, total_activity_score = 7\<rparr>])"
proof -
  note t = aggregate_idempotent_one_row[OF example_db_keys, of 7 19000]
  from t have "\<exists>tbl'. aggregate_runs
            ([(conversation_activities example_db, task_activities example_db)] @
             [(conversation_activities example_db, task_activities example_db)])
            (activity_summaries example_db) 7 19000 = Inr tbl'
          \<and> filter (\<lambda>r. sum_person_id r = 7 \<and> date_of (sum_date r) = 19000) tbl'
              = [\<lparr>sum_person_id = 7, sum_date = combine_min 19000,
                  conversations_created = spec_conversation_count (conversation_activities example_db) 7 19000,
                  tasks_completed = spec_task_count (task_activities example_db) 7 19000,
                  total_activity_score = spec_conversation_count (conversation_activities example_db) 7 19000
                     + 2 * spec_task_count (task_activities example_db) 7 19000\<rparr>]"
    by blast
  then show ?thesis using t example_db_keys by (simp add: example_db_counts)
qed

section \<open>Facts about streaks\<close>


lemma spec_runs_Cons:
  "\<exists>r rs. spec_runs (x # xs) = (x # r) # rs"
proof (induction xs arbitrary: x)
  case Nil
  then show ?case by simp
next
  case (Cons y ys)
  from Cons[of y] obtain r rs where "spec_runs (y # ys) = (y # r) # rs" by blast
  then show ?case by simp
qed

lemma spec_runs_step:
  "spec_runs (d # e # ds) =
     (if e - d = 1 then (d # hd (spec_runs (e # ds))) # tl (spec_runs (e # ds))
      else [d] # spec_runs (e # ds))"
  using spec_runs_Cons[of e ds] by auto

lemma streak_loop_spec:
  "(case streak_loop prev rest (temp, tstart) best of
      ((t, ts), b) \<Rightarrow> take_longer b t ts (last (prev # rest)))
   = fold (\<lambda>r best. take_longer best (int (length r)) (hd r) (last r))
       (tl (spec_runs (prev # rest)))
       (take_longer best (temp - 1 + int (length (hd (spec_runs (prev # rest))))) tstart
          (last (hd (spec_runs (prev # rest)))))"
proof (induction rest arbitrary: prev temp tstart best)
  case Nil
  then show ?case by simp
next
  case (Cons curr rest)
  obtain l ls le where best: "best = (l, ls, le)" by (cases best)
  obtain r rs where runs: "spec_runs (curr # rest) = (curr # r) # rs"
    using spec_runs_Cons by blast
  show ?case
  proof (cases "curr - prev = 1")
    case True
    from Cons[of curr "temp + 1" tstart best] True runs best
    show ?thesis by (simp add: spec_runs_step ac_simps)
  next
    case False
    let ?best' = "take_longer best temp tstart prev"
    have b': "(if temp > l then (temp, Some tstart, Some prev) else (l, ls, le)) = ?best'"
      by (simp add: take_longer_def best)
    from Cons[of curr 1 curr ?best'] False runs best b'
    show ?thesis by (simp add: spec_runs_step ac_simps)
  qed
qed


lemma longest_of_dates:
  "ds \<noteq> [] \<Longrightarrow>
     (longest_streak (streaks_of_dates ds today), longest_streak_start (streaks_of_dates ds today),
      longest_streak_end (streaks_of_dates ds today)) = best_of_runs (spec_runs ds)"
proof -
  assume "ds \<noteq> []"
  then obtain first rest where ds: "ds = first # rest" by (cases ds) auto
  obtain r rs where runs: "spec_runs (first # rest) = (first # r) # rs"
    using spec_runs_Cons by blast
  obtain t ts l ls le where loop: "streak_loop first rest (1, first) (0, None, None) = ((t, ts), (l, ls, le))"
    by (metis prod_cases3 surj_pair)
  from streak_loop_spec[of first rest 1 first "(0, None, None)"] loop runs
  have "take_longer (l, ls, le) t ts (last (first # rest)) = best_of_runs (spec_runs (first # rest))"
    by (simp add: best_of_runs_def)
  then show ?thesis
    using loop by (simp add: ds streaks_of_dates_def take_longer_def Let_def split: if_splits prod.splits)
qed

lemma fold_take_longer:
  "fst (fold (\<lambda>r best. take_longer best (int (length r)) (hd r) (last r)) rs b) \<ge> fst b
   \<and> (\<forall>r \<in> set rs. int (length r)
         \<le> fst (fold (\<lambda>r best. take_longer best (int (length r)) (hd r) (last r)) rs b))
   \<and> (fold (\<lambda>r best. take_longer best (int (length r)) (hd r) (last r)) rs b = b
        \<or> (\<exists>r \<in> set rs. fold (\<lambda>r best. take_longer best (int (length r)) (hd r) (last r)) rs b
               = (int (length r), Some (hd r), Some (last r))))"
proof (induction rs arbitrary: b)
  case Nil
  then show ?case by simp
next
  case (Cons r rs)
  let ?b1 = "take_longer b (int (length r)) (hd r) (last r)"
  have b1: "fst ?b1 \<ge> fst b" "int (length r) \<le> fst ?b1"
    "?b1 = b \<or> ?b1 = (int (length r), Some (hd r), Some (last r))"
    by (auto simp: take_longer_def)
  from Cons[of ?b1] b1 show ?case by (simp del: fold_simps add: fold.simps) force
qed

lemma best_of_runs_is_longest:
  assumes "rs \<noteq> []" and "\<forall>r \<in> set rs. r \<noteq> []"
  shows "(\<exists>r \<in> set rs. best_of_runs rs = (int (length r), Some (hd r), Some (last r)))
       \<and> (\<forall>r \<in> set rs. int (length r) \<le> fst (best_of_runs rs))"
proof -
  note f = fold_take_longer[of "(0, None, None)" rs]
  from assms obtain r0 where "r0 \<in> set rs" "int (length r0) \<ge> 1"
    by (metis last_in_set length_greater_0_conv less_eq_Suc_le of_nat_1 of_nat_mono One_nat_def)
  with f have "fst (best_of_runs rs) \<ge> 1" by (force simp: best_of_runs_def)
  then have "best_of_runs rs \<noteq> (0, None, None)" by auto
  with f show ?thesis by (auto simp: best_of_runs_def)
qed

lemma spec_runs_nonempty: "r \<in> set (spec_runs ds) \<Longrightarrow> r \<noteq> []"
  by (induction ds rule: spec_runs.induct) (auto split: list.splits if_splits)


lemma count_backwards_chain:
  "count_backwards later xs (n, s)
     = (n + int (length (chain_back later xs)), last (s # chain_back later xs))"
  by (induction xs arbitrary: later n s) auto

lemma chain_back_split:
  "\<exists>rest. ys = chain_back z ys @ rest
          \<and> (rest = [] \<or> last (z # chain_back z ys) - hd rest \<noteq> 1)"
proof (induction ys arbitrary: z)
  case Nil
  then show ?case by simp
next
  case (Cons d ys)
  show ?case
  proof (cases "z - d = 1")
    case True
    from Cons[of d] obtain rest where
      "ys = chain_back d ys @ rest" "rest = [] \<or> last (d # chain_back d ys) - hd rest \<noteq> 1"
      by blast
    with True show ?thesis by auto
  next
    case False
    then show ?thesis by simp
  qed
qed

lemma consecutive_snoc:
  "consecutive (xs @ [a]) \<Longrightarrow> b - a = 1 \<Longrightarrow> consecutive (xs @ [a, b])"
  by (induction xs rule: consecutive.induct) auto

lemma consecutive_chain_back: "consecutive (rev (chain_back z ys) @ [z])"
proof (induction ys arbitrary: z)
  case Nil
  then show ?case by simp
next
  case (Cons d ys)
  show ?case
  proof (cases "z - d = 1")
    case True
    from consecutive_snoc[OF Cons[of d] True] True show ?thesis by simp
  next
    case False
    then show ?thesis by simp
  qed
qed

lemma spec_runs_consecutive:
  "consecutive run \<Longrightarrow> run \<noteq> [] \<Longrightarrow> spec_runs run = [run]"
  by (induction run rule: spec_runs.induct) auto

lemma spec_runs_append:
  "pre \<noteq> [] \<Longrightarrow> run \<noteq> [] \<Longrightarrow> hd run - last pre \<noteq> 1
     \<Longrightarrow> spec_runs (pre @ run) = spec_runs pre @ spec_runs run"
proof (induction pre)
  case Nil
  then show ?case by simp
next
  case (Cons d pre)
  show ?case
  proof (cases pre)
    case Nil
    from Cons.prems obtain e es where "run = e # es" by (cases run) auto
    with Nil Cons.prems show ?thesis by simp
  next
    case (Cons e ds)
    with Cons.prems Cons.IH
    have ih: "spec_runs ((e # ds) @ run) = spec_runs (e # ds) @ spec_runs run" by simp
    obtain r rs where "spec_runs (e # ds) = (e # r) # rs" using spec_runs_Cons by blast
    with ih Cons show ?thesis by simp
  qed
qed

lemma trailing_run:
  assumes "ds \<noteq> []"
  shows "last (spec_runs ds) = rev (chain_back (last ds) (rev (butlast ds))) @ [last ds]"
proof -
  let ?z = "last ds" and ?ys = "rev (butlast ds)"
  let ?run = "rev (chain_back ?z ?ys) @ [?z]"
  from chain_back_split[of ?ys ?z] obtain rest where
    sp: "?ys = chain_back ?z ?ys @ rest"
    and br: "rest = [] \<or> last (?z # chain_back ?z ?ys) - hd rest \<noteq> 1"
    by blast
  have "ds = rev ?ys @ [?z]" using assms by simp
  also have "rev ?ys = rev rest @ rev (chain_back ?z ?ys)"
    by (subst sp) simp
  finally have ds: "ds = rev rest @ ?run" by simp
  have run: "spec_runs ?run = [?run]"
    by (rule spec_runs_consecutive[OF consecutive_chain_back]) simp
  have hd_run: "hd ?run = last (?z # chain_back ?z ?ys)"
    by (cases "chain_back ?z ?ys") (simp_all add: hd_append hd_rev)
  show ?thesis
  proof (cases "rest = []")
    case True
    with ds run show ?thesis by (metis append_Nil last.simps rev.simps(1))
  next
    case False
    with br hd_run have "hd ?run - last (rev rest) \<noteq> 1" by (simp add: last_rev)
    with False have "spec_runs (rev rest @ ?run) = spec_runs (rev rest) @ spec_runs ?run"
      by (intro spec_runs_append) simp_all
    with run ds show ?thesis by (metis last_snoc)
  qed
qed

lemma current_of_dates:
  assumes "ds \<noteq> []"
  shows "current_streak (streaks_of_dates ds today)
           = (if today - last ds \<le> 1 then int (length (last (spec_runs ds))) else 0)"
    and "current_streak_start (streaks_of_dates ds today)
           = (if today - last ds \<le> 1 then Some (hd (last (spec_runs ds))) else None)"
proof -
  from assms obtain first rest where ds: "ds = first # rest" by (cases ds) auto
  let ?c = "chain_back (last ds) (rev (butlast ds))"
  have tr: "last (spec_runs ds) = rev ?c @ [last ds]" by (rule trailing_run[OF assms])
  have len: "int (length (last (spec_runs ds))) = 1 + int (length ?c)" by (simp add: tr)
  have hd: "hd (last (spec_runs ds)) = last (last ds # ?c)"
    by (cases ?c) (simp_all add: tr hd_append hd_rev)
  show "current_streak (streaks_of_dates ds today)
           = (if today - last ds \<le> 1 then int (length (last (spec_runs ds))) else 0)"
    unfolding len
    by (simp add: ds streaks_of_dates_def Let_def count_backwards_chain split: prod.splits)
  show "current_streak_start (streaks_of_dates ds today)
           = (if today - last ds \<le> 1 then Some (hd (last (spec_runs ds))) else None)"
    unfolding hd
    by (simp add: ds streaks_of_dates_def Let_def count_backwards_chain split: prod.splits)
qed


text \<open>
  What the streak computation does return, for any non-empty list of active days: the
  longest streak is the length of a longest run, reported with that run's first and last
  day; the current streak is the length of the last run, with that run's first day, exactly
  when \<open>today - last \<le> 1\<close>, and 0 without a start otherwise. When the most recent active
  day is not after today, the current streak is therefore non-zero exactly when that day is
  today or yesterday.
\<close>

lemma streaks_of_dates_longest:
  assumes "ds \<noteq> []"
  shows "\<exists>r \<in> set (spec_runs ds).
           longest_streak (streaks_of_dates ds today) = int (length r)
         \<and> longest_streak_start (streaks_of_dates ds today) = Some (hd r)
         \<and> longest_streak_end (streaks_of_dates ds today) = Some (last r)
         \<and> (\<forall>r' \<in> set (spec_runs ds). length r' \<le> length r)"
proof -
  from assms obtain x xs where "ds = x # xs" by (cases ds) auto
  then have ne: "spec_runs ds \<noteq> []" using spec_runs_Cons[of x xs] by auto
  have "\<forall>r \<in> set (spec_runs ds). r \<noteq> []" by (simp add: spec_runs_nonempty)
  from best_of_runs_is_longest[OF ne this] obtain r where r:
    "r \<in> set (spec_runs ds)" "best_of_runs (spec_runs ds) = (int (length r), Some (hd r), Some (last r))"
    "\<forall>r' \<in> set (spec_runs ds). int (length r') \<le> fst (best_of_runs (spec_runs ds))"
    by blast
  from longest_of_dates[OF assms, of today] r(2)
  have "longest_streak (streaks_of_dates ds today) = int (length r)"
    "longest_streak_start (streaks_of_dates ds today) = Some (hd r)"
    "longest_streak_end (streaks_of_dates ds today) = Some (last r)"
    by simp_all
  moreover have "\<forall>r' \<in> set (spec_runs ds). length r' \<le> length r"
    using r(2,3) by simp
  ultimately show ?thesis using r(1) by blast
qed

lemma streaks_of_dates_current_not_future:
  assumes "ds \<noteq> []" and "last ds \<le> today"
  shows "current_streak (streaks_of_dates ds today) \<noteq> 0
           \<longleftrightarrow> last ds = today \<or> last ds = today - 1"
proof -
  from assms(1) obtain x xs where "ds = x # xs" by (cases ds) auto
  then have "spec_runs ds \<noteq> []" using spec_runs_Cons[of x xs] by auto
  then have "last (spec_runs ds) \<in> set (spec_runs ds)" by simp
  then have "last (spec_runs ds) \<noteq> []" by (rule spec_runs_nonempty)
  then have "int (length (last (spec_runs ds))) \<noteq> 0" by simp
  then show ?thesis
    using assms(2) by (auto simp: current_of_dates(1)[OF assms(1)])
qed

lemma streaks_of_no_dates:
  "streaks_of_dates [] today
     = \<lparr>current_streak = 0, longest_streak = 0, current_streak_start = None,
        longest_streak_start = None, longest_streak_end = None\<rparr>"
  by (simp add: streaks_of_dates_def)

lemma week_table_streaks:
  "calculate_streak week_table 7 19000
     = \<lparr>current_streak = 4, longest_streak = 4, current_streak_start = Some 18997,
        longest_streak_start = Some 18997, longest_streak_end = Some 19000\<rparr>"
  by code_simp

text \<open>
  Claim C3. The source comments the current streak with "must include today or yesterday",
  but tests only \<open>days_since_last \<le> 1\<close>, which also holds when the most recent active day
  lies after today. With today = day 19000 and the only active day 19003, the current streak
  is 1 and starts on day 19003, although the most recent active day is neither today nor
  yesterday.
\<close>

theorem calculate_streak_future_day:
  "calculate_streak future_day_table 7 19000
     = \<lparr>current_streak = 1, longest_streak = 1, current_streak_start = Some 19003,
        longest_streak_start = Some 19003, longest_streak_end = Some 19003\<rparr>
   \<and> activity_dates_of future_day_table 7 = [19003]
   \<and> (19003::date) \<noteq> 19000 \<and> (19003::date) \<noteq> 19000 - 1"
  by (simp add: calculate_streak_def streaks_of_dates_def activity_dates_of_def
      future_day_table_def)

section \<open>Facts about the heatmap\<close>

lemma heatmap_loop_eq:
  "heatmap_loop am mx cur e (points, n) =
     (points @ map (\<lambda>d. \<lparr>hm_date = d, hm_count = day_count am d,
                          hm_level = heat_level (day_count am d) mx\<rparr>) [cur..e],
      n + int (length (filter (\<lambda>d. day_count am d > 0) [cur..e])))"
proof (induction am mx cur e "(points, n)" arbitrary: points n rule: heatmap_loop.induct)
  case (1 am mx cur e points n)
  show ?case
  proof (cases "cur \<le> e")
    case True
    then have u: "[cur..e] = cur # [cur + 1..e]" by (simp add: upto_rec1)
    show ?thesis
      using True 1[OF True refl refl refl]
      by (subst heatmap_loop.simps) (simp add: u Let_def)
  next
    case False
    then show ?thesis by (subst heatmap_loop.simps) simp
  qed
qed

lemma get_heatmap_eq:
  "get_heatmap tbl pid days today =
     (let am = build_activity_map (get_summaries_for_person tbl pid (today - (days - 1)) today);
          mx = max_activity_of am
      in \<lparr>hm_person_id = pid, hm_start_date = today - (days - 1), hm_end_date = today,
          total_days = days,
          active_days = int (length (filter (\<lambda>d. day_count am d > 0) [today - (days - 1)..today])),
          max_activity = mx,
          hm_data = map (\<lambda>d. \<lparr>hm_date = d, hm_count = day_count am d,
                          hm_level = heat_level (day_count am d) mx\<rparr>) [today - (days - 1)..today]\<rparr>)"
  by (simp add: get_heatmap_def Let_def heatmap_loop_eq)

lemma build_activity_map_keys_gen:
  "fst ` set (fold (\<lambda>s m. AList.update (date_of (sum_date s)) (total_activity_score s) m) xs al)
     = fst ` set al \<union> (\<lambda>s. date_of (sum_date s)) ` set xs"
  by (induction xs arbitrary: al) (auto simp: AList.dom_update)

lemma build_activity_map_keys:
  "fst ` set (build_activity_map xs) = (\<lambda>s. date_of (sum_date s)) ` set xs"
  by (simp add: build_activity_map_def build_activity_map_keys_gen)

lemma day_count_no_row:
  assumes "\<not> (\<exists>r \<in> set tbl. sum_person_id r = pid \<and> date_of (sum_date r) = d)"
  shows "day_count (build_activity_map (get_summaries_for_person tbl pid s e)) d = 0"
proof -
  have "d \<notin> (\<lambda>s. date_of (sum_date s)) ` set (get_summaries_for_person tbl pid s e)"
    using assms by (auto simp: get_summaries_for_person_def)
  then have "d \<notin> fst ` set (build_activity_map (get_summaries_for_person tbl pid s e))"
    by (simp add: build_activity_map_keys)
  then have "map_of (build_activity_map (get_summaries_for_person tbl pid s e)) d = None"
    by (simp add: map_of_eq_None_iff)
  then show ?thesis by (simp add: day_count_def)
qed

lemma length_upto_days: "1 \<le> days \<Longrightarrow> length [today - (days - 1)..today] = nat days"
  by simp

text \<open>
  Claim C5. For a requested day count of at least 1, the heatmap holds exactly that many
  points, one for each calendar day of the window ending today, in order, whatever summary
  rows exist; a day on which the person has no summary row appears with count 0; and
  \<open>active_days\<close> is the number of points with a positive count.
\<close>

theorem heatmap_one_point_per_day:
  assumes "1 \<le> days"
  shows "length (hm_data (get_heatmap tbl pid days today)) = nat days
       \<and> map hm_date (hm_data (get_heatmap tbl pid days today)) = [today - (days - 1)..today]
       \<and> (\<forall>p \<in> set (hm_data (get_heatmap tbl pid days today)).
             \<not> (\<exists>r \<in> set tbl. sum_person_id r = pid \<and> date_of (sum_date r) = hm_date p)
               \<longrightarrow> hm_count p = 0)
       \<and> active_days (get_heatmap tbl pid days today)
           = int (length (filter (\<lambda>p. hm_count p > 0) (hm_data (get_heatmap tbl pid days today))))"
proof (intro conjI)
  show "length (hm_data (get_heatmap tbl pid days today)) = nat days"
    using assms by (simp add: get_heatmap_eq Let_def)
  show "map hm_date (hm_data (get_heatmap tbl pid days today)) = [today - (days - 1)..today]"
    by (simp add: get_heatmap_eq Let_def comp_def)
  show "\<forall>p \<in> set (hm_data (get_heatmap tbl pid days today)).
             \<not> (\<exists>r \<in> set tbl. sum_person_id r = pid \<and> date_of (sum_date r) = hm_date p)
               \<longrightarrow> hm_count p = 0"
    by (auto simp: get_heatmap_eq Let_def day_count_no_row)
  show "active_days (get_heatmap tbl pid days today)
           = int (length (filter (\<lambda>p. hm_count p > 0) (hm_data (get_heatmap tbl pid days today))))"
    by (simp add: get_heatmap_eq Let_def comp_def)
qed


lemma scores_table_heatmap:
  "get_heatmap scores_table 7 4 19000 =
     \<lparr>hm_person_id = 7, hm_start_date = 18997, hm_end_date = 19000, total_days = 4,
      active_days = 3, max_activity = 10,
      hm_data = [\<lparr>hm_date = 18997, hm_count = 1, hm_level = 1\<rparr>,
                 \<lparr>hm_date = 18998, hm_count = 5, hm_level = 3\<rparr>,
                 \<lparr>hm_date = 18999, hm_count = 0, hm_level = 0\<rparr>,
                 \<lparr>hm_date = 19000, hm_count = 10, hm_level = 4\<rparr>]\<rparr>"
  by (simp add: get_heatmap_eq Let_def scores_table_def get_summaries_for_person_def
      build_activity_map_def max_activity_of_def day_count_def heat_level_def
      combine_min_def day_us_def date_of_def upto_rec1)

lemma zero_score_table_heatmap:
  "get_heatmap zero_score_table 7 1 19000 =
     \<lparr>hm_person_id = 7, hm_start_date = 19000, hm_end_date = 19000, total_days = 1,
      active_days = 0, max_activity = 0,
      hm_data = [\<lparr>hm_date = 19000, hm_count = 0, hm_level = 0\<rparr>]\<rparr>"
  by (simp add: get_heatmap_eq Let_def zero_score_table_def get_summaries_for_person_def
      build_activity_map_def max_activity_of_def day_count_def heat_level_def
      combine_min_def day_us_def date_of_def upto_rec1)

theorem heatmap_one_point_per_day_witness:
  "(1::int) \<le> 4
   \<and> length (hm_data (get_heatmap scores_table 7 4 19000)) = 4
   \<and> map hm_date (hm_data (get_heatmap scores_table 7 4 19000)) = [18997, 18998, 18999, 19000]
   \<and> map hm_count (hm_data (get_heatmap scores_table 7 4 19000)) = [1, 5, 0, 10]
   \<and> active_days (get_heatmap scores_table 7 4 19000) = 3"
  using heatmap_one_point_per_day[of 4 scores_table 7 19000]
  by (simp add: scores_table_heatmap)


lemma alist_update_fresh:
  "k \<notin> fst ` set al \<Longrightarrow> AList.update k v al = al @ [(k, v)]"
  by (induction al) auto

lemma build_activity_map_distinct_gen:
  assumes "distinct (map (\<lambda>s. date_of (sum_date s)) xs)"
    and "(\<lambda>s. date_of (sum_date s)) ` set xs \<inter> fst ` set al = {}"
  shows "fold (\<lambda>s m. AList.update (date_of (sum_date s)) (total_activity_score s) m) xs al
           = al @ map (\<lambda>s. (date_of (sum_date s), total_activity_score s)) xs"
  using assms
proof (induction xs arbitrary: al)
  case Nil
  then show ?case by simp
next
  case (Cons x xs)
  from Cons.prems have fresh: "date_of (sum_date x) \<notin> fst ` set al" by auto
  have "(\<lambda>s. date_of (sum_date s)) ` set xs
          \<inter> fst ` set (al @ [(date_of (sum_date x), total_activity_score x)]) = {}"
    using Cons.prems by auto
  moreover have "distinct (map (\<lambda>s. date_of (sum_date s)) xs)"
    using Cons.prems by simp
  ultimately show ?case
    using Cons.IH[of "al @ [(date_of (sum_date x), total_activity_score x)]"] fresh
    by (simp add: alist_update_fresh)
qed

lemma build_activity_map_distinct:
  "distinct (map (\<lambda>s. date_of (sum_date s)) xs) \<Longrightarrow>
     build_activity_map xs = map (\<lambda>s. (date_of (sum_date s), total_activity_score s)) xs"
  by (simp add: build_activity_map_def build_activity_map_distinct_gen)

lemma max_activity_of_rows:
  "max_activity_of (map (\<lambda>s. (date_of (sum_date s), total_activity_score s)) xs)
     = (if xs = [] then 1 else Max (total_activity_score ` set xs))"
proof (cases xs)
  case Nil
  then show ?thesis by (simp add: max_activity_of_def)
next
  case (Cons x ys)
  have "fold max (map total_activity_score ys) (total_activity_score x)
          = Max (set (total_activity_score x # map total_activity_score ys))"
    by (rule Max.set_eq_fold[symmetric])
  then show ?thesis using Cons by (simp add: max_activity_of_def comp_def)
qed

lemma window_rows_distinct_days:
  assumes "distinct (summary_keys tbl)"
  shows "distinct (map (\<lambda>s. date_of (sum_date s)) (get_summaries_for_person tbl pid s e))"
proof -
  let ?P = "\<lambda>r. sum_person_id r = pid \<and> sum_date r \<ge> combine_min s \<and> sum_date r \<le> combine_min e"
  let ?key = "\<lambda>r. (sum_person_id r, date_of (sum_date r))"
  let ?rows = "sort_key sum_date (filter ?P tbl)"
  have "distinct (map ?key (filter ?P tbl))"
    using assms by (simp add: summary_keys_def distinct_map_filter)
  then have d: "distinct ?rows" and inj: "inj_on ?key (set ?rows)"
    by (simp_all add: distinct_map)
  have "inj_on (\<lambda>s. date_of (sum_date s)) (set ?rows)"
  proof (rule inj_onI)
    fix x y
    assume "x \<in> set ?rows" "y \<in> set ?rows" "date_of (sum_date x) = date_of (sum_date y)"
    moreover from this have "?key x = ?key y" by simp
    ultimately show "x = y" using inj by (meson inj_onD)
  qed
  with d show ?thesis
    by (simp add: get_summaries_for_person_def distinct_map)
qed

lemma get_heatmap_max_activity:
  assumes "distinct (summary_keys tbl)"
  shows "max_activity (get_heatmap tbl pid days today)
           = (if get_summaries_for_person tbl pid (today - (days - 1)) today = [] then 1
              else Max (total_activity_score `
                          set (get_summaries_for_person tbl pid (today - (days - 1)) today)))"
  using window_rows_distinct_days[OF assms, of pid "today - (days - 1)" today]
  by (simp add: get_heatmap_eq Let_def build_activity_map_distinct max_activity_of_rows)

lemma heat_level_table:
  "(c = 0 \<longrightarrow> heat_level c m = 0)
   \<and> (0 < c \<and> real_of_int c < 0.25 * real_of_int m \<longrightarrow> heat_level c m = 1)
   \<and> (0 < c \<and> 0.25 * real_of_int m \<le> real_of_int c \<and> real_of_int c < 0.5 * real_of_int m
        \<longrightarrow> heat_level c m = 2)
   \<and> (0 < c \<and> 0.5 * real_of_int m \<le> real_of_int c \<and> real_of_int c < 0.75 * real_of_int m
        \<longrightarrow> heat_level c m = 3)
   \<and> (0 < c \<and> 0.75 * real_of_int m \<le> real_of_int c \<longrightarrow> heat_level c m = 4)"
  by (auto simp: heat_level_def)


text \<open>
  Claim C4, as stated, fails: \<open>max_activity\<close> is the maximum score of the rows in the
  window and is 1 only when the window has no row at all. A window whose rows all have score
  0 gives \<open>max_activity = 0\<close>, below the claimed floor of 1; there the point of count 0
  satisfies \<open>count \<ge> 0.75 \<times> max\<close> and has level 0, not 4.
\<close>

theorem heatmap_max_activity_zero_counterexample:
  "max_activity (get_heatmap zero_score_table 7 1 19000) = 0
   \<and> hm_data (get_heatmap zero_score_table 7 1 19000)
       = [\<lparr>hm_date = 19000, hm_count = 0, hm_level = 0\<rparr>]
   \<and> real_of_int 0 \<ge> 0.75 * real_of_int (max_activity (get_heatmap zero_score_table 7 1 19000))"
  by (simp add: zero_score_table_heatmap)

text \<open>
  Claim C4, amended. On a well-formed summary table, \<open>max_activity\<close> is the maximum score
  of the person's summary rows in the window, or 1 when the window has no such row (so it is
  0 when every row of the window has score 0). Each point's level follows from its count
  and \<open>max_activity\<close>: level 0 if the count is 0; for a positive count, level 1 below
  \<open>0.25 \<times> max\<close>, level 2 from \<open>0.25 \<times> max\<close> and below \<open>0.5 \<times> max\<close>, level 3 from
  \<open>0.5 \<times> max\<close> and below \<open>0.75 \<times> max\<close>, level 4 from \<open>0.75 \<times> max\<close>.
\<close>

theorem heatmap_levels:
  assumes "distinct (summary_keys tbl)"
  shows "max_activity (get_heatmap tbl pid days today)
           = (if get_summaries_for_person tbl pid (today - (days - 1)) today = [] then 1
              else Max (total_activity_score `
                          set (get_summaries_for_person tbl pid (today - (days - 1)) today)))
       \<and> (\<forall>p \<in> set (hm_data (get_heatmap tbl pid days today)).
            (hm_count p = 0 \<longrightarrow> hm_level p = 0)
          \<and> (0 < hm_count p
               \<and> real_of_int (hm_count p)
                    < 0.25 * real_of_int (max_activity (get_heatmap tbl pid days today))
              \<longrightarrow> hm_level p = 1)
          \<and> (0 < hm_count p
               \<and> 0.25 * real_of_int (max_activity (get_heatmap tbl pid days today))
                    \<le> real_of_int (hm_count p)
               \<and> real_of_int (hm_count p)
                    < 0.5 * real_of_int (max_activity (get_heatmap tbl pid days today))
              \<longrightarrow> hm_level p = 2)
          \<and> (0 < hm_count p
               \<and> 0.5 * real_of_int (max_activity (get_heatmap tbl pid days today))
                    \<le> real_of_int (hm_count p)
               \<and> real_of_int (hm_count p)
                    < 0.75 * real_of_int (max_activity (get_heatmap tbl pid days today))
              \<longrightarrow> hm_level p = 3)
          \<and> (0 < hm_count p
               \<and> 0.75 * real_of_int (max_activity (get_heatmap tbl pid days today))
                    \<le> real_of_int (hm_count p)
              \<longrightarrow> hm_level p = 4))"
proof (rule conjI)
  show "max_activity (get_heatmap tbl pid days today)
           = (if get_summaries_for_person tbl pid (today - (days - 1)) today = [] then 1
              else Max (total_activity_score `
                          set (get_summaries_for_person tbl pid (today - (days - 1)) today)))"
    by (rule get_heatmap_max_activity[OF assms])
next
  let ?am = "build_activity_map (get_summaries_for_person tbl pid (today - (days - 1)) today)"
  have mx: "max_activity (get_heatmap tbl pid days today) = max_activity_of ?am"
    by (simp add: get_heatmap_eq Let_def)
  have pts: "\<And>p. p \<in> set (hm_data (get_heatmap tbl pid days today))
               \<Longrightarrow> hm_level p = heat_level (hm_count p) (max_activity_of ?am)"
    by (auto simp: get_heatmap_eq Let_def)
  show "\<forall>p \<in> set (hm_data (get_heatmap tbl pid days today)).
            (hm_count p = 0 \<longrightarrow> hm_level p = 0)
          \<and> (0 < hm_count p
               \<and> real_of_int (hm_count p)
                    < 0.25 * real_of_int (max_activity (get_heatmap tbl pid days today))
              \<longrightarrow> hm_level p = 1)
          \<and> (0 < hm_count p
               \<and> 0.25 * real_of_int (max_activity (get_heatmap tbl pid days today))
                    \<le> real_of_int (hm_count p)
               \<and> real_of_int (hm_count p)
                    < 0.5 * real_of_int (max_activity (get_heatmap tbl pid days today))
              \<longrightarrow> hm_level p = 2)
          \<and> (0 < hm_count p
               \<and> 0.5 * real_of_int (max_activity (get_heatmap tbl pid days today))
                    \<le> real_of_int (hm_count p)
               \<and> real_of_int (hm_count p)
                    < 0.75 * real_of_int (max_activity (get_heatmap tbl pid days today))
              \<longrightarrow> hm_level p = 3)
          \<and> (0 < hm_count p
               \<and> 0.75 * real_of_int (max_activity (get_heatmap tbl pid days today))
                    \<le> real_of_int (hm_count p)
              \<longrightarrow> hm_level p = 4)"
  proof
    fix p
    assume "p \<in> set (hm_data (get_heatmap tbl pid days today))"
    then have "hm_level p = heat_level (hm_count p) (max_activity_of ?am)" by (rule pts)
    then show "(hm_count p = 0 \<longrightarrow> hm_level p = 0)
          \<and> (0 < hm_count p
               \<and> real_of_int (hm_count p)
                    < 0.25 * real_of_int (max_activity (get_heatmap tbl pid days today))
              \<longrightarrow> hm_level p = 1)
          \<and> (0 < hm_count p
               \<and> 0.25 * real_of_int (max_activity (get_heatmap tbl pid days today))
                    \<le> real_of_int (hm_count p)
               \<and> real_of_int (hm_count p)
                    < 0.5 * real_of_int (max_activity (get_heatmap tbl pid days today))
              \<longrightarrow> hm_level p = 2)
          \<and> (0 < hm_count p
               \<and> 0.5 * real_of_int (max_activity (get_heatmap tbl pid days today))
                    \<le> real_of_int (hm_count p)
               \<and> real_of_int (hm_count p)
                    < 0.75 * real_of_int (max_activity (get_heatmap tbl pid days today))
              \<longrightarrow> hm_level p = 3)
          \<and> (0 < hm_count p
               \<and> 0.75 * real_of_int (max_activity (get_heatmap tbl pid days today))
                    \<le> real_of_int (hm_count p)
              \<longrightarrow> hm_level p = 4)"
      using heat_level_table[of "hm_count p" "max_activity_of ?am"]
      by (simp only: mx)
  qed
qed

lemma scores_table_keys: "distinct (summary_keys scores_table)"
  by (simp add: scores_table_def summary_keys_def)

theorem heatmap_levels_witness:
  "distinct (summary_keys scores_table)
   \<and> max_activity (get_heatmap scores_table 7 4 19000) = 10
   \<and> map hm_count (hm_data (get_heatmap scores_table 7 4 19000)) = [1, 5, 0, 10]
   \<and> map hm_level (hm_data (get_heatmap scores_table 7 4 19000)) = [1, 3, 0, 4]"
  using heatmap_levels[OF scores_table_keys, of 7 4 19000] scores_table_keys
  by (simp add: scores_table_heatmap)

section \<open>Facts about bulk aggregation\<close>

lemma persons_loop_result:
  "persons_loop rejected db ps d (c, calls) = Inr (db', c', calls') \<Longrightarrow>
     map (\<lambda>(p, d, ok). (p, d)) calls' = map (\<lambda>(p, d, ok). (p, d)) calls @ map (\<lambda>p. (p_id p, d)) ps
   \<and> c' - int (length (filter (\<lambda>(p, d, ok). ok) calls'))
       = c - int (length (filter (\<lambda>(p, d, ok). ok) calls))"
proof (induction ps arbitrary: db c calls)
  case Nil
  then show ?case by simp
next
  case (Cons person rest)
  show ?case
  proof (cases "aggregate_daily_activities db (p_id person) d")
    case (Inl e)
    with Cons.prems
    have "persons_loop rejected db rest d (c, calls @ [(p_id person, d, False)]) = Inr (db', c', calls')"
      by simp
    from Cons.IH[OF this] show ?thesis by simp
  next
    case (Inr r)
    obtain db1 s where r: "r = (db1, s)" by (cases r)
    with Inr Cons.prems have nr: "(p_id person, d) \<notin> set rejected"
      by (auto split: if_splits)
    with Inr r Cons.prems
    have "persons_loop rejected db1 rest d (c + 1, calls @ [(p_id person, d, True)]) = Inr (db', c', calls')"
      by simp
    from Cons.IH[OF this] show ?thesis by simp
  qed
qed

lemma days_loop_result:
  "days_loop rejected db ps cur e (c, calls) = Inr (db', c', calls') \<Longrightarrow>
     map (\<lambda>(p, d, ok). (p, d)) calls' = map (\<lambda>(p, d, ok). (p, d)) calls @ day_person_pairs ps cur e
   \<and> c' - int (length (filter (\<lambda>(p, d, ok). ok) calls'))
       = c - int (length (filter (\<lambda>(p, d, ok). ok) calls))"
proof (induction rejected db ps cur e "(c, calls)" arbitrary: c calls rule: days_loop.induct)
  case (1 rejected db ps cur e c calls)
  show ?case
  proof (cases "cur \<le> e")
    case True
    then have u: "[cur..e] = cur # [cur + 1..e]" by (simp add: upto_rec1)
    from True "1.prems" obtain db1 c1 calls1 where
      pl: "persons_loop rejected db ps cur (c, calls) = Inr (db1, c1, calls1)"
      and dl: "days_loop rejected db1 ps (cur + 1) e (c1, calls1) = Inr (db', c', calls')"
      by (subst (asm) days_loop.simps) (auto split: sum.splits)
    from persons_loop_result[OF pl] "1.hyps"[OF True pl refl dl]
    show ?thesis by (simp add: day_person_pairs_def u)
  next
    case False
    with "1.prems" show ?thesis
      by (subst (asm) days_loop.simps) (simp add: day_person_pairs_def)
  qed
qed

lemma bulk_trace:
  assumes "bulk_aggregate_daily_activities rejected db persons_table s e = Inr (db', c, calls)"
  shows "map (\<lambda>(p, d, ok). (p, d)) calls = day_person_pairs (take 10000 persons_table) s e"
    and "c = int (length (filter (\<lambda>(p, d, ok). ok) calls))"
  using days_loop_result[of rejected db "take 10000 persons_table" s e 0 "[]" db' c calls] assms
  by (simp_all add: bulk_aggregate_daily_activities_def get_all_def)

lemma persons_loop_returns:
  "\<forall>p \<in> set ps. (p_id p, d) \<notin> set rejected \<Longrightarrow> \<exists>r. persons_loop rejected db ps d st = Inr r"
proof (induction ps arbitrary: db st)
  case Nil
  then show ?case by simp
next
  case (Cons person rest)
  obtain c calls where st: "st = (c, calls)" by (cases st)
  from Cons show ?case by (auto simp: st split: sum.splits)
qed

lemma days_loop_returns:
  "set rejected \<inter> set (day_person_pairs ps cur e) = {} \<Longrightarrow>
     \<exists>r. days_loop rejected db ps cur e st = Inr r"
proof (induction rejected db ps cur e st rule: days_loop.induct)
  case (1 rejected db ps cur e st)
  show ?case
  proof (cases "cur \<le> e")
    case True
    then have u: "[cur..e] = cur # [cur + 1..e]" by (simp add: upto_rec1)
    from "1.prems" have a: "\<forall>p \<in> set ps. (p_id p, cur) \<notin> set rejected"
      and b: "set rejected \<inter> set (day_person_pairs ps (cur + 1) e) = {}"
      by (auto simp: day_person_pairs_def u)
    from persons_loop_returns[OF a] obtain db1 st1 where
      pl: "persons_loop rejected db ps cur st = Inr (db1, st1)" by (metis prod.exhaust)
    from "1.IH"[OF True pl refl b] show ?thesis
      using True pl by (subst days_loop.simps) simp
  next
    case False
    then show ?thesis by (subst days_loop.simps) simp
  qed
qed

lemma bulk_returns:
  "set rejected \<inter> set (day_person_pairs (take 10000 persons_table) s e) = {} \<Longrightarrow>
     \<exists>db' c calls. bulk_aggregate_daily_activities rejected db persons_table s e = Inr (db', c, calls)"
  using days_loop_returns[of rejected "take 10000 persons_table" s e db "(0, [])"]
  by (simp add: bulk_aggregate_daily_activities_def get_all_def)


lemma aggregate_keeps_keys_distinct:
  assumes "distinct (summary_keys (activity_summaries db))"
  shows "\<exists>db' s. aggregate_daily_activities db p d = Inr (db', s)
           \<and> distinct (summary_keys (activity_summaries db'))"
  using aggregate_ok[OF assms, of p d] by auto

lemma persons_loop_refused:
  assumes "distinct (summary_keys (activity_summaries db))"
  shows "if \<exists>p \<in> set ps. (p_id p, d) \<in> set rejected
         then persons_loop rejected db ps d st = Inl SessionRolledBack
         else \<exists>db' st'. persons_loop rejected db ps d st = Inr (db', st')
                \<and> distinct (summary_keys (activity_summaries db'))"
  using assms
proof (induction ps arbitrary: db st)
  case Nil
  then show ?case by simp
next
  case (Cons person rest)
  obtain c calls where st: "st = (c, calls)" by (cases st)
  from aggregate_keeps_keys_distinct[OF Cons.prems, of "p_id person" d] obtain db1 s where
    a: "aggregate_daily_activities db (p_id person) d = Inr (db1, s)"
    and d1: "distinct (summary_keys (activity_summaries db1))"
    by blast
  show ?case
  proof (cases "(p_id person, d) \<in> set rejected")
    case True
    with a show ?thesis by (auto simp: st)
  next
    case False
    with a Cons.IH[OF d1, of "(c + 1, calls @ [(p_id person, d, True)])"]
    show ?thesis by (auto simp: st split: if_splits)
  qed
qed

lemma days_loop_refused:
  assumes "distinct (summary_keys (activity_summaries db))"
    and "set rejected \<inter> set (day_person_pairs ps cur e) \<noteq> {}"
  shows "days_loop rejected db ps cur e st = Inl SessionRolledBack"
  using assms
proof (induction rejected db ps cur e st rule: days_loop.induct)
  case (1 rejected db ps cur e st)
  from "1.prems"(2) have le: "cur \<le> e" by (auto simp: day_person_pairs_def)
  then have u: "[cur..e] = cur # [cur + 1..e]" by (simp add: upto_rec1)
  note pl = persons_loop_refused[OF "1.prems"(1), of ps cur rejected st]
  show ?case
  proof (cases "\<exists>p \<in> set ps. (p_id p, cur) \<in> set rejected")
    case True
    with pl have "persons_loop rejected db ps cur st = Inl SessionRolledBack" by simp
    with le show ?thesis by (subst days_loop.simps) simp
  next
    case False
    with pl obtain db1 st1 where r: "persons_loop rejected db ps cur st = Inr (db1, st1)"
      "distinct (summary_keys (activity_summaries db1))" by auto
    from False "1.prems"(2)
    have "set rejected \<inter> set (day_person_pairs ps (cur + 1) e) \<noteq> {}"
      by (auto simp: day_person_pairs_def u)
    from "1.IH"[OF le r(1) refl r(2) this] show ?thesis
      using le r(1) by (subst days_loop.simps) simp
  qed
qed

text \<open>
  On a well-formed summary table the batch returns exactly when the database refuses none
  of the flushes of its range; one refused flush ends it without a count.
\<close>

lemma bulk_refused:
  assumes "distinct (summary_keys (activity_summaries db))"
    and "set rejected \<inter> set (day_person_pairs (take 10000 persons_table) s e) \<noteq> {}"
  shows "bulk_aggregate_daily_activities rejected db persons_table s e = Inl SessionRolledBack"
  using days_loop_refused[OF assms(1), of rejected "take 10000 persons_table" s e "(0, [])"] assms(2)
  by (simp add: bulk_aggregate_daily_activities_def get_all_def)

text \<open>
  Claim C9. The loop catches every exception of a single aggregation, logs it and means to
  go on. But when the database refuses the flush of one summary (here that of person 8 on
  day 19000, in a batch over three persons and two days), the session is rolled back, the
  \<open>except\<close> branch itself raises, and the batch ends there: the four combinations after it
  are not aggregated and no count is returned. Without a refusal the same loop aggregates
  every combination and returns their number: on the sample database it returns 3 and
  leaves the recomputed rows of the persons 7, 8 and 9.
\<close>

theorem bulk_aborts_on_refused_flush:
  "bulk_aggregate_daily_activities [(8, 19000)] empty_db three_persons 19000 19001
     = Inl SessionRolledBack
   \<and> snd (projr (bulk_aggregate_daily_activities [] empty_db three_persons 19000 19001))
     = (6, [(7, 19000, True), (8, 19000, True), (9, 19000, True),
            (7, 19001, True), (8, 19001, True), (9, 19001, True)])
   \<and> snd (projr (bulk_aggregate_daily_activities [] example_db three_persons 19000 19000))
     = (3, [(7, 19000, True), (8, 19000, True), (9, 19000, True)])
   \<and> activity_summaries
       (fst (projr (bulk_aggregate_daily_activities [] example_db three_persons 19000 19000)))
     = [\<lparr>sum_person_id = 7, sum_date = combine_min 19000, conversations_created = 3,
         tasks_completed = 2, total_activity_score = 7\<rparr>,
        \<lparr>sum_person_id = 8, sum_date = combine_min 19000, conversations_created = 1,
         tasks_completed = 0, total_activity_score = 1\<rparr>,
        \<lparr>sum_person_id = 9, sum_date = combine_min 19000, conversations_created = 0,
         tasks_completed = 0, total_activity_score = 0\<rparr>]"
  by code_simp

lemma take_many_persons:
  "take 10000 many_persons = map (\<lambda>i. \<lparr>p_id = int i, p_username = []\<rparr>) [1..<10001]"
  by (simp add: many_persons_def take_map)

text \<open>
  Claim C8. The source fetches the persons with \<open>get_all(limit=10000)\<close>, commented
  "Get all persons". With 10001 persons in the table, the last one of the username order is
  never aggregated: the run over the single day 19000 returns after 10000 calls, none of
  them for person 10001.
\<close>

theorem bulk_skips_person_beyond_limit:
  "length many_persons = 10001
   \<and> \<lparr>p_id = 10001, p_username = []\<rparr> \<in> set many_persons
   \<and> \<not> isl (bulk_aggregate_daily_activities [] empty_db many_persons 19000 19000)
   \<and> (10001, 19000) \<notin> set (map (\<lambda>(p, d, ok). (p, d))
         (snd (snd (projr (bulk_aggregate_daily_activities [] empty_db many_persons 19000 19000)))))
   \<and> length (snd (snd (projr (bulk_aggregate_daily_activities [] empty_db many_persons 19000 19000))))
       = 10000"
proof -
  from bulk_returns[of "[]" many_persons 19000 19000 empty_db] obtain db' c calls where
    r: "bulk_aggregate_daily_activities [] empty_db many_persons 19000 19000 = Inr (db', c, calls)"
    by auto
  have tr: "map (\<lambda>(p, d, ok). (p, d)) calls = map (\<lambda>p. (p_id p, 19000)) (take 10000 many_persons)"
    using bulk_trace(1)[OF r] by (simp add: day_person_pairs_def)
  have a: "length many_persons = 10001" by (simp add: many_persons_def)
  have "\<lparr>p_id = int 10001, p_username = []\<rparr> \<in> (\<lambda>i. \<lparr>p_id = int i, p_username = []\<rparr>) ` {1..<10002}"
    by (rule imageI) simp
  then have b: "\<lparr>p_id = 10001, p_username = []\<rparr> \<in> set many_persons"
    by (simp add: many_persons_def)
  have c: "(10001, 19000) \<notin> set (map (\<lambda>(p, d, ok). (p, d)) calls)"
    by (simp only: tr take_many_persons) auto
  have "length (map (\<lambda>(p, d, ok). (p, d)) calls) = 10000"
    by (simp only: tr take_many_persons) simp
  then have d: "length calls = 10000" by simp
  show ?thesis using a b c d by (simp add: r)
qed


section \<open>Facts about the task ledger\<close>

lemma update_existing_task_key [simp]:
  "notion_task_id (update_existing_task x task now) = notion_task_id x"
  "task_person_id (update_existing_task x task now) = task_person_id x"
  by (simp_all add: update_existing_task_def Let_def)

lemma filter_singleton_mem:
  assumes "filter P xs = [x]" and "r \<in> set xs" and "P r"
  shows "r = x"
proof -
  from assms(2,3) have "r \<in> set (filter P xs)" by simp
  with assms(1) show ?thesis by simp
qed

lemma map_replace_field:
  assumes "filter (\<lambda>t. notion_task_id t = nid) tbl = [x]"
    and "f x' = f x"
  shows "map f (map (\<lambda>r. if notion_task_id r = nid then x' else r) tbl) = map f tbl"
proof -
  have "\<And>r. r \<in> set tbl \<Longrightarrow> f (if notion_task_id r = nid then x' else r) = f r"
    using filter_singleton_mem[OF assms(1)] assms(2) by auto
  then show ?thesis by (simp add: comp_def cong: map_cong)
qed

lemma owners_replace:
  assumes "filter (\<lambda>t. notion_task_id t = nid) tbl = [x]"
    and "notion_task_id x' = notion_task_id x" and "task_person_id x' = task_person_id x"
  shows "owners (map (\<lambda>r. if notion_task_id r = nid then x' else r) tbl) n = owners tbl n"
proof -
  have "x \<in> set (filter (\<lambda>t. notion_task_id t = nid) tbl)"
    using assms(1) by simp
  then have x: "notion_task_id x = nid" by simp
  have "\<And>r. r \<in> set tbl \<Longrightarrow> notion_task_id r = nid \<Longrightarrow> r = x"
    using filter_singleton_mem[OF assms(1)] by auto
  then show ?thesis
    using assms(2,3) x
    by (induction tbl) (auto simp: owners_def)
qed

lemma distinct_ids_filter:
  "distinct (map notion_task_id tbl) \<Longrightarrow>
     filter (\<lambda>t. notion_task_id t = nid) tbl = [] \<or> (\<exists>x. filter (\<lambda>t. notion_task_id t = nid) tbl = [x])"
proof (induction tbl)
  case Nil
  then show ?case by simp
next
  case (Cons r tbl)
  show ?case
  proof (cases "notion_task_id r = nid")
    case True
    with Cons.prems have "nid \<notin> notion_task_id ` set tbl" by auto
    then have "filter (\<lambda>t. notion_task_id t = nid) tbl = []"
      by (auto simp: filter_empty_conv)
    with True show ?thesis by simp
  next
    case False
    with Cons show ?thesis by simp
  qed
qed

lemma bulk_create_tasks_loop_owner:
  assumes "distinct (map notion_task_id tbl)"
  shows "\<exists>tbl' created'. bulk_create_tasks_loop tbl entries now created = Inr (tbl', created')
           \<and> distinct (map notion_task_id tbl')
           \<and> (\<forall>nid. owners tbl' nid
                  = (if owners tbl nid \<noteq> [] then owners tbl nid else first_assignee entries nid))"
  using assms
proof (induction entries arbitrary: tbl created)
  case Nil
  then show ?case by (simp add: first_assignee_def)
next
  case (Cons e rest)
  let ?nid = "te_notion_task_id e"
  from distinct_ids_filter[OF Cons.prems, of ?nid]
  consider "filter (\<lambda>t. notion_task_id t = ?nid) tbl = []"
    | x where "filter (\<lambda>t. notion_task_id t = ?nid) tbl = [x]"
    by blast
  then show ?case
  proof cases
    case 1
    let ?a = "create_task_activity e now"
    have fresh: "?nid \<notin> notion_task_id ` set tbl"
      using 1 by (auto simp: filter_empty_conv)
    have d: "distinct (map notion_task_id (tbl @ [?a]))"
      using Cons.prems fresh by (simp add: create_task_activity_def)
    from Cons.IH[OF d, of "created @ [?a]"] obtain tbl' created' where r:
      "bulk_create_tasks_loop (tbl @ [?a]) rest now (created @ [?a]) = Inr (tbl', created')"
      "distinct (map notion_task_id tbl')"
      "\<forall>nid. owners tbl' nid = (if owners (tbl @ [?a]) nid \<noteq> [] then owners (tbl @ [?a]) nid
                                 else first_assignee rest nid)"
      by blast
    have step: "bulk_create_tasks_loop tbl (e # rest) now created = Inr (tbl', created')"
      using 1 r(1) by (simp add: get_task_by_notion_id_def Let_def)
    have own: "\<And>nid. owners (tbl @ [?a]) nid
                 = owners tbl nid @ (if nid = ?nid then [te_person_id e] else [])"
      by (auto simp: owners_def create_task_activity_def)
    have none: "owners tbl ?nid = []" using 1 by (simp add: owners_def)
    have "\<forall>nid. owners tbl' nid
            = (if owners tbl nid \<noteq> [] then owners tbl nid else first_assignee (e # rest) nid)"
      using r(3) own none by (auto simp: first_assignee_def)
    with step r(2) show ?thesis by blast
  next
    case 2
    let ?x' = "update_existing_task x e now"
    let ?tbl1 = "map (\<lambda>r. if notion_task_id r = ?nid then ?x' else r) tbl"
    have ids: "map notion_task_id ?tbl1 = map notion_task_id tbl"
      by (rule map_replace_field[OF 2]) simp
    have d: "distinct (map notion_task_id ?tbl1)" using Cons.prems by (simp only: ids)
    from Cons.IH[OF d, of created] obtain tbl' created' where r:
      "bulk_create_tasks_loop ?tbl1 rest now created = Inr (tbl', created')"
      "distinct (map notion_task_id tbl')"
      "\<forall>nid. owners tbl' nid = (if owners ?tbl1 nid \<noteq> [] then owners ?tbl1 nid
                                 else first_assignee rest nid)"
      by blast
    have step: "bulk_create_tasks_loop tbl (e # rest) now created = Inr (tbl', created')"
      using 2 r(1) by (simp add: get_task_by_notion_id_def Let_def)
    have own: "\<And>nid. owners ?tbl1 nid = owners tbl nid"
      by (rule owners_replace[OF 2]) simp_all
    have some: "owners tbl ?nid \<noteq> []" using 2 by (simp add: owners_def)
    have "\<forall>nid. owners tbl' nid
            = (if owners tbl nid \<noteq> [] then owners tbl nid else first_assignee (e # rest) nid)"
      using r(3) own some by (auto simp: first_assignee_def)
    with step r(2) show ?thesis by blast
  qed
qed

lemma first_assignee_append:
  "first_assignee (es1 @ es2) nid
     = (if first_assignee es1 nid \<noteq> [] then first_assignee es1 nid else first_assignee es2 nid)"
  by (auto simp: first_assignee_def split: list.splits)

lemma sync_tasks_owner:
  assumes "distinct (map notion_task_id tbl)"
  shows "\<exists>tbl' n. sync_tasks tbl pages now = Inr (tbl', n)
           \<and> distinct (map notion_task_id tbl')
           \<and> (\<forall>nid. owners tbl' nid
                  = (if owners tbl nid \<noteq> [] then owners tbl nid
                     else first_assignee (prepare_task_activities pages) nid))"
proof (cases "prepare_task_activities pages = []")
  case True
  then show ?thesis using assms by (simp add: sync_tasks_def first_assignee_def)
next
  case False
  from bulk_create_tasks_loop_owner[OF assms, of "prepare_task_activities pages" now "[]"]
  obtain tbl' created' where
    "bulk_create_tasks_loop tbl (prepare_task_activities pages) now [] = Inr (tbl', created')"
    "distinct (map notion_task_id tbl')"
    "\<forall>nid. owners tbl' nid
                  = (if owners tbl nid \<noteq> [] then owners tbl nid
                     else first_assignee (prepare_task_activities pages) nid)"
    by blast
  then show ?thesis using False by (simp add: sync_tasks_def bulk_create_tasks_def)
qed

text \<open>
  Claim C10. Starting from a task ledger with at most one row per external task id, every
  sequence of task syncs succeeds and again leaves at most one row per external task id.
  The owning persons of an id are decided by \<open>notion_task_id\<close> alone: an id that already
  had a row keeps its owner, whatever persons the later entries name, and an id without a
  row gets the person of the first entry prepared for it (the first assignee processed) and
  no other.
\<close>

theorem task_ledger_one_row_per_task:
  assumes "distinct (map notion_task_id tbl)"
  shows "\<exists>tbl'. sync_runs runs tbl = Inr tbl'
           \<and> distinct (map notion_task_id tbl')
           \<and> (\<forall>nid. owners tbl' nid
                  = (if owners tbl nid \<noteq> [] then owners tbl nid
                     else first_assignee
                            (concat (map (\<lambda>(pages, now). prepare_task_activities pages) runs)) nid))"
  using assms
proof (induction runs arbitrary: tbl)
  case Nil
  then show ?case by (simp add: first_assignee_def)
next
  case (Cons run runs)
  obtain pages now where run: "run = (pages, now)" by (cases run)
  from sync_tasks_owner[OF Cons.prems, of pages now] obtain tbl1 n where s:
    "sync_tasks tbl pages now = Inr (tbl1, n)" "distinct (map notion_task_id tbl1)"
    "\<forall>nid. owners tbl1 nid
                  = (if owners tbl nid \<noteq> [] then owners tbl nid
                     else first_assignee (prepare_task_activities pages) nid)"
    by blast
  from Cons.IH[OF s(2)] obtain tbl' where r:
    "sync_runs runs tbl1 = Inr tbl'" "distinct (map notion_task_id tbl')"
    "\<forall>nid. owners tbl' nid
                  = (if owners tbl1 nid \<noteq> [] then owners tbl1 nid
                     else first_assignee
                            (concat (map (\<lambda>(pages, now). prepare_task_activities pages) runs)) nid)"
    by blast
  have "sync_runs (run # runs) tbl = Inr tbl'" using s(1) r(1) run by simp
  moreover have "\<forall>nid. owners tbl' nid
                  = (if owners tbl nid \<noteq> [] then owners tbl nid
                     else first_assignee
                            (concat (map (\<lambda>(pages, now). prepare_task_activities pages) (run # runs))) nid)"
    using s(3) r(3) run by (simp add: first_assignee_append)
  ultimately show ?case using r(2) by blast
qed


lemma sync_runs_example:
  "sync_runs [([shared_page], 5), ([renamed_page], 9)] []
     = Inr [\<lparr>task_person_id = 7, notion_task_id = ''task-1'', task_title = Some ''Shipped'',
             project_name = Some ''Core'', completed_at = 19000 * day_us + 100,
             last_status_change = Some (19000 * day_us + 200), task_last_synced_at = 9,
             task_notion_metadata = Some [(''notion_url'', ''u'')]\<rparr>]"
  by (simp add: sync_tasks_def prepare_task_activities_def shared_page_def renamed_page_def
      bulk_create_tasks_def get_task_by_notion_id_def create_task_activity_def
      update_existing_task_def truthy_str_def truthy_json_def Let_def)

theorem task_ledger_one_row_per_task_witness:
  "distinct (map notion_task_id ([] :: task_activity list))
   \<and> map te_person_id (prepare_task_activities [shared_page]) = [7, 8]
   \<and> (\<exists>tbl'. sync_runs [([shared_page], 5), ([renamed_page], 9)] [] = Inr tbl'
          \<and> distinct (map notion_task_id tbl')
          \<and> owners tbl' ''task-1'' = [7]
          \<and> map task_title tbl' = [Some ''Shipped''])"
proof -
  have d: "distinct (map notion_task_id ([] :: task_activity list))" by simp
  have prep: "map te_person_id (prepare_task_activities [shared_page]) = [7, 8]"
    by (simp add: prepare_task_activities_def shared_page_def)
  from task_ledger_one_row_per_task[OF d, of "[([shared_page], 5), ([renamed_page], 9)]"]
  obtain tbl' where t: "sync_runs [([shared_page], 5), ([renamed_page], 9)] [] = Inr tbl'"
    "distinct (map notion_task_id tbl')"
    by (elim exE conjE) (rule that, assumption+)
  from t(1) have tbl': "tbl' = [\<lparr>task_person_id = 7, notion_task_id = ''task-1'',
             task_title = Some ''Shipped'',
             project_name = Some ''Core'', completed_at = 19000 * day_us + 100,
             last_status_change = Some (19000 * day_us + 200), task_last_synced_at = 9,
             task_notion_metadata = Some [(''notion_url'', ''u'')]\<rparr>]"
    by (simp only: sync_runs_example sum.inject)
  have o: "owners tbl' ''task-1'' = [7]" "map task_title tbl' = [Some ''Shipped'']"
    by (simp_all add: tbl' owners_def)
  show ?thesis
    by (intro conjI exI[of _ tbl']) (rule d prep t o)+
qed


section \<open>Facts about the cache refresh\<close>

lemma find_update_first:
  assumes "\<And>x. P x \<Longrightarrow> P (f x)"
  shows "find P (update_first P f xs) = map_option f (find P xs)"
  using assms by (induction xs) auto

lemma find_append_new:
  "find P xs = None \<Longrightarrow> P y \<Longrightarrow> find P (xs @ [y]) = Some y"
  by (induction xs) (auto split: if_splits)

lemma update_cache_metadata_recorded:
  "\<exists>m. get_cache_metadata (update_cache_metadata db ct records duration err now) ct = Some m
        \<and> is_updating m = False \<and> error_message m = err \<and> total_records m = records
        \<and> last_updated m = now"
proof (cases "get_cache_metadata db ct")
  case None
  then show ?thesis
    by (simp add: update_cache_metadata_def get_cache_metadata_def find_append_new)
next
  case (Some m0)
  then show ?thesis
    by (simp add: update_cache_metadata_def get_cache_metadata_def find_update_first)
qed

lemma update_cache_metadata_rows [simp]:
  "cached_projects (update_cache_metadata db ct records duration err now) = cached_projects db"
  by (simp add: update_cache_metadata_def split: option.splits)

lemma set_cache_updating_rows [simp]:
  "cached_projects (set_cache_updating db ct u now) = cached_projects db"
  by (simp add: set_cache_updating_def split: option.splits)

text \<open>Once a worker has written the flag, every check finds it set.\<close>

lemma flag_set_after_write:
  "already_updating (set_cache_updating db ct True now) ct"
proof (cases "get_cache_metadata db ct")
  case None
  then show ?thesis
    by (simp add: already_updating_def set_cache_updating_def get_cache_metadata_def
        find_append_new)
next
  case (Some m)
  then show ?thesis
    by (simp add: already_updating_def set_cache_updating_def get_cache_metadata_def
        find_update_first)
qed

text \<open>Three steps of a worker that nobody interleaves with are one run of the task.\<close>

lemma worker_steps_are_task:
  "worker_step env (worker_step env (worker_step env (db, Ready)))
     = (snd (update_projects_cache db env), Finished (fst (update_projects_cache db env)))"
  by (simp add: update_projects_cache_def begin_refresh_def split: prod.splits)

text \<open>
  Claim C6, amended. For every cache type, if a refresh runs its check while that type's
  metadata has \<open>is_updating = true\<close>, it returns the "skipped" result and the database is
  left exactly as it was: no cache row and no metadata field changes. For the projects cache
  this is the whole task, run alone or as the first step of an interleaved worker. (A second
  refresh is thus excluded only when its check runs after the first refresh has written the
  flag.)
\<close>

theorem refresh_skipped_when_updating:
  assumes "already_updating db ct"
  shows "begin_refresh db ct now = Inl (Skipped, db)
       \<and> (ct = ''projects'' \<longrightarrow>
            update_projects_cache db env = (Skipped, db)
          \<and> worker_step env (db, Ready) = (db, Finished Skipped))"
  using assms by (auto simp: update_projects_cache_def begin_refresh_def)

lemma busy_cache_updating: "already_updating busy_cache ''projects''"
  by (simp add: already_updating_def get_cache_metadata_def busy_cache_def)

lemma idle_cache_not_updating: "\<not> already_updating idle_cache ''projects''"
  by (simp add: already_updating_def get_cache_metadata_def idle_cache_def)

theorem refresh_skipped_when_updating_witness:
  "already_updating busy_cache ''projects''
   \<and> begin_refresh busy_cache ''projects'' 20 = Inl (Skipped, busy_cache)
   \<and> update_projects_cache busy_cache env_ok = (Skipped, busy_cache)
   \<and> worker_step env_ok (busy_cache, Ready) = (busy_cache, Finished Skipped)"
  using refresh_skipped_when_updating[OF busy_cache_updating, of 20 env_ok] busy_cache_updating
  by simp

text \<open>
  Claim C6, as stated, fails in its last part. The check of the flag and the write of the
  flag are two separate committed steps. When two workers both check before either writes,
  both find the flag clear, both write it, and both refreshes are in progress at once.
\<close>

theorem two_refreshes_in_progress_counterexample:
  "\<not> already_updating idle_cache ''projects''
   \<and> snd (run_schedule env_ok [0, 1, 0, 1] (idle_cache, [Ready, Ready])) = [InProgress, InProgress]"
  by (simp add: idle_cache_not_updating)

text \<open>
  Claim C7, amended, for the refresh of the projects cache. For a refresh that passes the
  guard: if the fetch raises, the task re-raises for a retry with that message, the
  metadata row afterwards has \<open>is_updating = false\<close> and holds the message, and the cache
  rows are the same as before. If the fetch succeeds and the insert of the new rows is
  refused, the cache holds no rows afterwards: the old rows were deleted and committed by
  the clear step, and nothing of the new batch is stored.
\<close>

theorem failed_refresh:
  assumes "\<not> already_updating db ''projects''"
  shows "(\<forall>msg. fetched env = Inl msg \<longrightarrow>
            fst (update_projects_cache db env) = Retry msg
          \<and> cached_projects (snd (update_projects_cache db env)) = cached_projects db
          \<and> (\<exists>m. get_cache_metadata (snd (update_projects_cache db env)) ''projects'' = Some m
                 \<and> is_updating m = False \<and> error_message m = Some msg))
       \<and> (\<forall>projects msg. fetched env = Inr projects
            \<and> bulk_insert_projects
                  (clear_projects_cache (set_cache_updating db ''projects'' True (utcnow_start env)))
                  (map to_cached_project projects) (insert_failure env) = Inl msg \<longrightarrow>
            cached_projects (snd (update_projects_cache db env)) = [])"
proof (intro conjI allI impI)
  fix msg
  assume f: "fetched env = Inl msg"
  let ?db1 = "set_cache_updating db ''projects'' True (utcnow_start env)"
  have r: "update_projects_cache db env
             = (Retry msg, update_cache_metadata ?db1 ''projects'' 0 (end_time env - start_time env)
                             (Some msg) (utcnow_end env))"
    using assms f
    by (simp add: update_projects_cache_def begin_refresh_def fetch_and_replace_def
        on_refresh_error_def Let_def)
  show "fst (update_projects_cache db env) = Retry msg" by (simp add: r)
  show "cached_projects (snd (update_projects_cache db env)) = cached_projects db"
    by (simp add: r)
  show "\<exists>m. get_cache_metadata (snd (update_projects_cache db env)) ''projects'' = Some m
                 \<and> is_updating m = False \<and> error_message m = Some msg"
    using update_cache_metadata_recorded[of ?db1 "''projects''" 0 "end_time env - start_time env"
        "Some msg" "utcnow_end env"]
    by (simp only: r snd_conv) blast
next
  fix projects msg
  assume a: "fetched env = Inr projects
            \<and> bulk_insert_projects
                  (clear_projects_cache (set_cache_updating db ''projects'' True (utcnow_start env)))
                  (map to_cached_project projects) (insert_failure env) = Inl msg"
  then show "cached_projects (snd (update_projects_cache db env)) = []"
    using assms
    by (simp add: update_projects_cache_def begin_refresh_def fetch_and_replace_def
        on_refresh_error_def Let_def clear_projects_cache_def)
qed


lemma insert_rejected:
  "bulk_insert_projects
      (clear_projects_cache (set_cache_updating idle_cache ''projects'' True (utcnow_start env_insert_fails)))
      (map to_cached_project [long_name_project]) (insert_failure env_insert_fails)
     = Inl ''DataError''"
  by (simp add: bulk_insert_projects_def clear_projects_cache_def to_cached_project_def
      long_name_project_def new_project_def row_fits_def opt_fits_def)

lemma fetch_failure_run:
  "update_projects_cache idle_cache env_fetch_fails
     = (Retry ''timeout'',
        \<lparr>metadata_rows = [\<lparr>cache_type = ''projects'', last_updated = 23, is_updating = False,
                            total_records = 0, update_duration_seconds = Some 3,
                            error_message = Some ''timeout''\<rparr>],
         cached_projects = [old_project]\<rparr>)"
  by (simp add: update_projects_cache_def begin_refresh_def idle_cache_not_updating
      fetch_and_replace_def on_refresh_error_def env_fetch_fails_def env_ok_def)
     (simp add: idle_cache_def set_cache_updating_def update_cache_metadata_def
        get_cache_metadata_def)

text \<open>
  Claim C7, as stated, fails for an exception in the replace step. \<open>clear_projects_cache\<close>
  commits the deletion of the old rows before the new rows are inserted. When the insert is
  refused (here a project name of 256 characters for a column of 255), the cache, which
  held one project before, holds none after; and the task ends inside its \<open>except\<close> branch,
  with the flag \<open>is_updating\<close> still set.
\<close>

theorem failed_refresh_loses_snapshot_counterexample:
  "cached_projects idle_cache = [old_project]
   \<and> \<not> already_updating idle_cache ''projects''
   \<and> fetched env_insert_fails = Inr [long_name_project]
   \<and> length (np_project_name long_name_project) = 256
   \<and> fst (update_projects_cache idle_cache env_insert_fails) = HandlerRaised
   \<and> cached_projects (snd (update_projects_cache idle_cache env_insert_fails)) = []
   \<and> already_updating (snd (update_projects_cache idle_cache env_insert_fails)) ''projects''"
proof -
  have r: "update_projects_cache idle_cache env_insert_fails
             = (HandlerRaised,
                clear_projects_cache
                  (set_cache_updating idle_cache ''projects'' True (utcnow_start env_insert_fails)))"
    using insert_rejected
    by (simp add: update_projects_cache_def begin_refresh_def idle_cache_not_updating
        fetch_and_replace_def env_insert_fails_def env_ok_def Let_def)
  have u: "already_updating
             (clear_projects_cache
                (set_cache_updating idle_cache ''projects'' True (utcnow_start env_insert_fails)))
             ''projects''"
    using flag_set_after_write[of idle_cache "''projects''" "utcnow_start env_insert_fails"]
    by (simp add: already_updating_def get_cache_metadata_def clear_projects_cache_def)
  show ?thesis
    using u
    by (simp add: r idle_cache_not_updating clear_projects_cache_def)
       (simp add: idle_cache_def env_insert_fails_def long_name_project_def)
qed

theorem failed_refresh_witness:
  "\<not> already_updating idle_cache ''projects''
   \<and> fetched env_fetch_fails = Inl ''timeout''
   \<and> fst (update_projects_cache idle_cache env_fetch_fails) = Retry ''timeout''
   \<and> cached_projects (snd (update_projects_cache idle_cache env_fetch_fails)) = cached_projects idle_cache
   \<and> get_cache_metadata (snd (update_projects_cache idle_cache env_fetch_fails)) ''projects''
       = Some \<lparr>cache_type = ''projects'', last_updated = 23, is_updating = False,
                total_records = 0, update_duration_seconds = Some 3,
                error_message = Some ''timeout''\<rparr>
   \<and> fetched env_insert_fails = Inr [long_name_project]
   \<and> cached_projects (snd (update_projects_cache idle_cache env_insert_fails)) = []"
proof -
  have f1: "fetched env_fetch_fails = Inl ''timeout''"
    by (simp add: env_fetch_fails_def)
  have f2: "fetched env_insert_fails = Inr [long_name_project]"
    by (simp add: env_insert_fails_def)
  note t1 = failed_refresh[OF idle_cache_not_updating, of env_fetch_fails]
  note t2 = failed_refresh[OF idle_cache_not_updating, of env_insert_fails]
  from t1 f1 have a: "fst (update_projects_cache idle_cache env_fetch_fails) = Retry ''timeout''"
    "cached_projects (snd (update_projects_cache idle_cache env_fetch_fails)) = cached_projects idle_cache"
    by blast+
  from t2 f2 insert_rejected
  have b: "cached_projects (snd (update_projects_cache idle_cache env_insert_fails)) = []"
    by blast
  have c: "get_cache_metadata (snd (update_projects_cache idle_cache env_fetch_fails)) ''projects''
       = Some \<lparr>cache_type = ''projects'', last_updated = 23, is_updating = False,
                total_records = 0, update_duration_seconds = Some 3,
                error_message = Some ''timeout''\<rparr>"
    by (simp add: fetch_failure_run get_cache_metadata_def)
  show ?thesis
    by (intro conjI) (rule idle_cache_not_updating f1 f2 a b c)+
qed


end
